theory Spec2Isabelle
  imports Main "HOL-Library.Signed_Division" "HOL-Library.Multiset"
begin

unbundle bit_operations_syntax

section \<open>Machine integers\<close>

text \<open>
  The firmware runs on a 32-bit Cortex-M3. Its C integers are modelled as \<open>int\<close> with
  the conversion to the destination type written out at every assignment:
  \<open>u8\<close>, \<open>u16\<close>, \<open>u32\<close> for the unsigned types, \<open>s16\<close>, \<open>s32\<close> for the two's
  complement ones. \<open>int\<close> arithmetic in C is 32 bits wide, so every \<open>int\<close>
  expression that can leave the range is wrapped with \<open>s32\<close>.
\<close>

definition u8 :: "int \<Rightarrow> int" where
  "u8 x = x mod 256"

definition u16 :: "int \<Rightarrow> int" where
  "u16 x = x mod 65536"

definition u32 :: "int \<Rightarrow> int" where
  "u32 x = x mod 4294967296"

definition s16 :: "int \<Rightarrow> int" where
  "s16 x = (x + 32768) mod 65536 - 32768"

definition s32 :: "int \<Rightarrow> int" where
  "s32 x = (x + 2147483648) mod 4294967296 - 2147483648"

section \<open>Enumerations of the object dictionary\<close>

text \<open>
  The header that declares these enumerations is not part of the sources at hand; the
  constructors are the enumerators the monitor uses. Their numeric values are only used
  when a state word is packed for reporting, which is not modelled.
\<close>

datatype battery_Type = wetT | gelT | agmT

datatype battery_Fl_States = normalF | lowF | criticalF | faultyF

datatype battery_Op_States = loadedO | chargingO | isolatedO

datatype battery_Hl_States = goodH | faultyH | missingH | weakH

datatype battery_Ch_States = bulkC | absorptionC | restC | floatC

section \<open>computeSoC: state of charge from the open circuit voltage\<close>

text \<open>
  \<^verbatim>\<open>uint32_t tDiff = (12518-temperature) >> 2;\<close> The subtraction is unsigned and wraps
  for temperatures above 12518.
\<close>

definition tDiff :: "int \<Rightarrow> int" where
  "tDiff temperature = u32 (12518 - u32 temperature) div 4"

text \<open>\<^verbatim>\<open>uint32_t vFactor = 65536-((42*tDiff*tDiff) >> 20);\<close>\<close>

definition vFactor :: "int \<Rightarrow> int" where
  "vFactor temperature =
     u32 (65536 - u32 (42 * tDiff temperature * tDiff temperature) div 1048576)"

text \<open>
  \<^verbatim>\<open>int32_t ocv = (voltage*65536)/vFactor;\<close> The product and the quotient are unsigned
  32-bit; the quotient is then converted to \<open>int32_t\<close>.
\<close>

definition ocv :: "int \<Rightarrow> int \<Rightarrow> int" where
  "ocv voltage temperature =
     s32 (u32 (u32 voltage * 65536) div vFactor temperature)"

text \<open>
  The remainder of the function, from the open circuit voltage on. The right shift of the
  signed \<open>soc\<close> is arithmetic on the target, which is \<open>div 256\<close> on \<open>int\<close>.
  The result is returned as \<open>int16_t\<close>.
\<close>

definition socOfOcv :: "battery_Type \<Rightarrow> int \<Rightarrow> int" where
  "socOfOcv type v =
     (let v100 = (if type = wetT then 3242 else 3280);
          soc = s32 (100 * s32 (65536 - s32 (320 * s32 (v100 - v))));
          soc = (if type = gelT \<or> type = agmT
                 then (let v50 = 3178 in
                       if v < v50
                       then (let v25 = 3075 in
                             if v > v25 then s32 (soc + s32 (100 * 160 * s32 (v50 - v)))
                             else s32 (soc + 100 * 160 * (v50 - v25)))
                       else soc)
                 else soc);
          soc = soc div 256;
          soc = (if soc > 100 * 256 then 100 * 256 else soc);
          soc = (if soc < 0 then 0 else soc)
      in s16 soc)"

definition computeSoC :: "int \<Rightarrow> int \<Rightarrow> battery_Type \<Rightarrow> int" where
  "computeSoC voltage temperature type = socOfOcv type (ocv voltage temperature)"

section \<open>Battery records, configuration and measurements\<close>

text \<open>
  \<^verbatim>\<open>struct batteryStates\<close> of the monitor header. \<open>currentSteady\<close> and \<open>SoC\<close> are
  \<open>uint16_t\<close>, \<open>charge\<close> is \<open>int32_t\<close>, \<open>isolationTime\<close> is \<open>uint32_t\<close>.
\<close>

record batteryStates =
  currentSteady :: int
  fillState :: battery_Fl_States
  opState :: battery_Op_States
  healthState :: battery_Hl_States
  lastCurrent :: int
  lastVoltage :: int
  SoC :: int
  charge :: int
  isolationTime :: int

text \<open>
  The fields of \<^verbatim>\<open>configData.config\<close> that the monitor reads, through the accessors of
  the object dictionary or directly. \<open>WEAK_VOLTAGE\<close> and \<open>TEMPERATURE_LIMIT\<close> are
  macros of a header that is not part of the sources at hand; they are taken as parameters.
\<close>

record config =
  batteryCapacity :: "int \<Rightarrow> int"
  batteryType :: "int \<Rightarrow> battery_Type"
  lowVoltage :: int
  criticalVoltage :: int
  lowSoC :: int
  criticalSoC :: int
  floatBulkSoC :: int
  monitorStrategy :: int
  monitorDelay :: int
  autoTrack :: bool
  WEAK_VOLTAGE :: int
  TEMPERATURE_LIMIT :: int

text \<open>
  What the measurement task reports during one pass of the monitor loop. The accessors
  take the index the monitor passes, which is not always a valid battery number.
\<close>

record measurements =
  getBatteryVoltage :: "int \<Rightarrow> int"
  getBatteryCurrent :: "int \<Rightarrow> int"
  getBatteryAccumulatedCharge :: "int \<Rightarrow> int"
  getPanelVoltage :: "int \<Rightarrow> int"
  getTemperature :: int

text \<open>Calls the monitor makes to the switch, charger, message and storage modules.\<close>

datatype call =
    SetSwitch int int
  | SetSwitchControlBits int
  | SetPanelSwitchSetting int
  | TaskDelay
  | DataMessage string int int
  | WriteConfigBlock

text \<open>
  The persistent variables of the monitor. \<open>battery\<close> is the array
  \<^verbatim>\<open>battery[NUM_BATS]\<close>; \<open>NUM_BATS\<close> is its length. Several places of the monitor
  index the array outside \<open>0 .. NUM_BATS-1\<close>; C leaves such a read undefined, and on the
  target it yields whatever the neighbouring memory holds. \<open>outside\<close> is that content,
  by index. \<open>chargingPhase\<close> is the charging phase kept by the charger task, read with
  \<^verbatim>\<open>getBatteryChargingPhase\<close> and written with \<^verbatim>\<open>setBatteryChargingPhase\<close>.
  \<open>calls\<close> records the calls to the other modules, oldest first.
\<close>

record monitor =
  battery :: "batteryStates list"
  outside :: "int \<Rightarrow> batteryStates"
  currentOffsets :: "int list"
  batteryUnderCharge :: int
  batteryUnderLoad :: int
  chargerOff :: bool
  calibrate :: bool
  decisionStatus :: int
  chargingPhase :: "int \<Rightarrow> battery_Ch_States"
  calls :: "call list"

definition NUM_BATS :: "monitor \<Rightarrow> nat" where
  "NUM_BATS s = length (battery s)"

text \<open>
  Modelled from the spec: the interface counts are macros of a header that is not part of
  the sources at hand. The monitor is written for two loads and one panel, and the
  interface record has one entry per battery, load and panel.
\<close>

definition NUM_LOADS :: nat where
  "NUM_LOADS = 2"

definition NUM_PANELS :: nat where
  "NUM_PANELS = 1"

definition NUM_IFS :: "monitor \<Rightarrow> nat" where
  "NUM_IFS s = NUM_BATS s + NUM_LOADS + NUM_PANELS"

text \<open>\<^verbatim>\<open>#define NUM_TESTS NUM_IFS+1\<close>\<close>

definition NUM_TESTS :: "monitor \<Rightarrow> nat" where
  "NUM_TESTS s = NUM_IFS s + 1"

text \<open>A read of \<^verbatim>\<open>battery[i]\<close>.\<close>

definition batteryAt :: "monitor \<Rightarrow> int \<Rightarrow> batteryStates" where
  "batteryAt s i =
     (if 0 \<le> i \<and> i < int (length (battery s)) then battery s ! nat i else outside s i)"

section \<open>setBatterySoC, resetBatterySoC and setBatteryMissing\<close>

text \<open>
  The body of \<^verbatim>\<open>setBatterySoC\<close> on one record. The test is on the stored SoC, not on
  the argument. The argument is converted to \<open>int16_t\<close>; the product is \<open>int\<close>
  arithmetic.
\<close>

definition setSoC :: "int \<Rightarrow> int \<Rightarrow> batteryStates \<Rightarrow> batteryStates" where
  "setSoC capacity value b =
     (let soc = s16 value
      in b\<lparr>SoC := (if SoC b > 25600 then 25600 else u16 soc),
           charge := s32 (soc * capacity * 36)\<rparr>)"

definition setBatterySoC :: "config \<Rightarrow> nat \<Rightarrow> int \<Rightarrow> monitor \<Rightarrow> monitor" where
  "setBatterySoC cfg i soc s =
     s\<lparr>battery := (battery s)[i := setSoC (batteryCapacity cfg (int i)) soc (battery s ! i)]\<rparr>"

definition resetBatterySoC :: "config \<Rightarrow> nat \<Rightarrow> monitor \<Rightarrow> monitor" where
  "resetBatterySoC cfg i s =
     (let s = (if SoC (battery s ! i) < 25600
               then s\<lparr>battery := (battery s)[i := (battery s ! i)\<lparr>fillState := faultyF\<rparr>]\<rparr>
               else s)
      in setBatterySoC cfg i 25600 s)"

text \<open>
  \<^verbatim>\<open>setBatteryMissing\<close> marks a battery missing or good and leaves the rest of its
  record, the operational state too, as it is. The source takes the index as \<open>int\<close> and
  writes to \<^verbatim>\<open>battery[i]\<close> without a range test; here \<open>i\<close> is an index of the array.
\<close>

definition setBatteryMissing :: "nat \<Rightarrow> bool \<Rightarrow> monitor \<Rightarrow> monitor" where
  "setBatteryMissing i missing s =
     s\<lparr>battery := (battery s)[i := (battery s ! i)
                       \<lparr>healthState := (if missing then missingH else goodH)\<rparr>]\<rparr>"

section \<open>The monitor loop: battery state\<close>

text \<open>
  Batteries that are missing lose the loads and the charger (first loop of
  "Compute the Battery State").
\<close>

definition removeMissingStep :: "config \<Rightarrow> monitor \<Rightarrow> nat \<Rightarrow> monitor" where
  "removeMissingStep cfg s i =
     (if healthState (battery s ! i) = missingH
      then (let s = setBatterySoC cfg i 0 s;
                s = (if batteryUnderLoad s = int i + 1 then s\<lparr>batteryUnderLoad := 0\<rparr> else s);
                s = (if batteryUnderCharge s = int i + 1 then s\<lparr>batteryUnderCharge := 0\<rparr>
                     else s)
            in s)
      else s)"

definition removeMissing :: "config \<Rightarrow> monitor \<Rightarrow> monitor" where
  "removeMissing cfg s = foldl (removeMissingStep cfg) s [0..<NUM_BATS s]"

text \<open>\<^verbatim>\<open>uint8_t numBats = NUM_BATS;\<close> decremented once for each missing battery.\<close>

definition countBats :: "monitor \<Rightarrow> int" where
  "countBats s =
     foldl (\<lambda>numBats b. if healthState b = missingH then u8 (numBats - 1) else numBats)
       (u8 (int (NUM_BATS s))) (battery s)"

text \<open>
  The charge accumulated since the last pass is added and clamped to
  \<open>0 .. chargeMax\<close>; the SoC follows from the charge. The C division truncates.
\<close>

definition integrateCharge :: "int \<Rightarrow> int \<Rightarrow> batteryStates \<Rightarrow> batteryStates" where
  "integrateCharge capacity accumulated b =
     (let accumulatedCharge = s16 accumulated;
          c = s32 (charge b + accumulatedCharge);
          chargeMax = u32 (capacity * 3600 * 256);
          c = (if c < 0 then 0 else c);
          c = (if u32 c > chargeMax then s32 chargeMax else c)
      in b\<lparr>charge := c, SoC := u16 (c sdiv s32 (capacity * 36))\<rparr>)"

text \<open>The fill state indication, in the order of the source.\<close>

definition fillStateOf :: "config \<Rightarrow> int \<Rightarrow> int \<Rightarrow> battery_Fl_States" where
  "fillStateOf cfg batteryAbsVoltage soc =
     (if batteryAbsVoltage < lowVoltage cfg \<or> soc < lowSoC cfg then lowF
      else if batteryAbsVoltage < criticalVoltage cfg \<or> soc < criticalSoC cfg then criticalF
      else normalF)"

text \<open>A battery below the dropout voltage is labelled weak.\<close>

definition weakCheck :: "config \<Rightarrow> int \<Rightarrow> batteryStates \<Rightarrow> batteryStates" where
  "weakCheck cfg batteryAbsVoltage b =
     (if healthState b \<noteq> missingH \<and> batteryAbsVoltage < WEAK_VOLTAGE cfg
      then b\<lparr>healthState := weakH, fillState := criticalF, SoC := 0\<rparr>
      else b)"

text \<open>Good health is restored when the battery enters the rest phase.\<close>

definition restCheck :: "battery_Ch_States \<Rightarrow> batteryStates \<Rightarrow> batteryStates" where
  "restCheck phase b =
     (if healthState b \<noteq> missingH \<and> phase = restC then b\<lparr>healthState := goodH\<rparr> else b)"

text \<open>The body of the loop that updates each battery that is not missing.\<close>

definition trackBattery ::
  "config \<Rightarrow> measurements \<Rightarrow> (int \<Rightarrow> battery_Ch_States) \<Rightarrow> int \<Rightarrow> batteryStates
     \<Rightarrow> batteryStates" where
  "trackBattery cfg m phase i b =
     (if healthState b \<noteq> missingH
      then (let b = integrateCharge (batteryCapacity cfg i) (getBatteryAccumulatedCharge m i) b;
                batteryAbsVoltage = u16 \<bar>getBatteryVoltage m i\<bar>;
                b = b\<lparr>fillState := fillStateOf cfg batteryAbsVoltage (SoC b)\<rparr>;
                b = weakCheck cfg batteryAbsVoltage b;
                b = restCheck (phase i) b
            in b)
      else b)"

definition trackBatteries :: "config \<Rightarrow> measurements \<Rightarrow> monitor \<Rightarrow> monitor" where
  "trackBatteries cfg m s =
     s\<lparr>battery := map (\<lambda>i. trackBattery cfg m (chargingPhase s) (int i) (battery s ! i))
                     [0..<NUM_BATS s]\<rparr>"

section \<open>The monitor loop: ranking\<close>

text \<open>
  The two bubble sorts over \<^verbatim>\<open>batteryFillStateSort\<close>, which holds battery numbers
  \<open>1 .. NUM_BATS\<close>. \<open>bubblePass\<close> is the inner loop over \<open>k\<close>, \<open>bubbleSort\<close> the
  outer loop over \<open>i\<close>; \<open>swap\<close> is the test that exchanges the entries \<open>k\<close> and \<open>k+1\<close>.
\<close>

definition swapAdjacent :: "'a list \<Rightarrow> nat \<Rightarrow> 'a list" where
  "swapAdjacent xs k = xs[k := xs ! (k + 1), k + 1 := xs ! k]"

definition bubblePass :: "('a \<Rightarrow> 'a \<Rightarrow> bool) \<Rightarrow> 'a list \<Rightarrow> nat \<Rightarrow> 'a list" where
  "bubblePass swap xs n =
     foldl (\<lambda>ys k. if swap (ys ! k) (ys ! (k + 1)) then swapAdjacent ys k else ys) xs [0..<n]"

definition bubbleSort :: "('a \<Rightarrow> 'a \<Rightarrow> bool) \<Rightarrow> 'a list \<Rightarrow> 'a list" where
  "bubbleSort swap xs =
     foldl (\<lambda>ys i. bubblePass swap ys (length xs - i - 1)) xs [0..<length xs - 1]"

definition batteryFillStateSort :: "monitor \<Rightarrow> int list" where
  "batteryFillStateSort s =
     (let ranking = map (\<lambda>i. int i + 1) [0..<NUM_BATS s];
          ranking = bubbleSort (\<lambda>a b. SoC (batteryAt s (a - 1)) < SoC (batteryAt s (b - 1)))
                     ranking;
          ranking = bubbleSort (\<lambda>a b. healthState (batteryAt s (a - 1)) = missingH) ranking
      in ranking)"

text \<open>
  The battery with the longest isolation time. The loop runs over the first \<open>numBats\<close>
  array entries.
\<close>

definition longestBattery :: "monitor \<Rightarrow> int \<Rightarrow> int" where
  "longestBattery s numBats =
     fst (foldl (\<lambda>(longest, longestTime) i.
                   if healthState (batteryAt s i) \<noteq> missingH
                      \<and> isolationTime (batteryAt s i) > longestTime
                   then (i + 1, isolationTime (batteryAt s i))
                   else (longest, longestTime))
            (0, 0) (map int [0..<nat numBats]))"

section \<open>The monitor loop: preliminary decisions\<close>

text \<open>
  The loops of this part run over \<^verbatim>\<open>index = batteryFillStateSort[i]\<close> for
  \<open>i < numBats\<close> and pass \<open>index\<close> itself, a battery number from 1, to
  \<^verbatim>\<open>battery[index]\<close> and to the accessors, which count from 0.
\<close>

definition ranked :: "int list \<Rightarrow> int \<Rightarrow> int list" where
  "ranked ranking numBats = take (nat numBats) ranking"

text \<open>A battery in float phase goes back to bulk phase when its SoC has dropped.\<close>

definition restartBulkStep :: "config \<Rightarrow> monitor \<Rightarrow> int \<Rightarrow> monitor" where
  "restartBulkStep cfg s index =
     (if healthState (batteryAt s index) \<noteq> missingH
         \<and> chargingPhase s index = floatC
         \<and> s16 (SoC (batteryAt s index)) < floatBulkSoC cfg
      then s\<lparr>chargingPhase := (chargingPhase s)(index := bulkC)\<rparr>
      else s)"

definition restartBulk :: "config \<Rightarrow> int list \<Rightarrow> int \<Rightarrow> monitor \<Rightarrow> monitor" where
  "restartBulk cfg ranking numBats s =
     foldl (restartBulkStep cfg) s (ranked ranking numBats)"

text \<open>The charger is released from a battery in float or rest phase.\<close>

definition releaseCharged :: "monitor \<Rightarrow> monitor" where
  "releaseCharged s =
     (if batteryUnderCharge s > 0
      then (let floatPhase = (chargingPhase s (batteryUnderCharge s - 1) = floatC);
                restPhase = (chargingPhase s (batteryUnderCharge s - 1) = restC)
            in if floatPhase \<or> restPhase then s\<lparr>batteryUnderCharge := 0\<rparr> else s)
      else s)"

text \<open>
  Charging is turned off when no battery examined is below the panel voltage plus 128.
  The loop leaves at the first battery found below it.
\<close>

definition panelCheck :: "measurements \<Rightarrow> int list \<Rightarrow> int \<Rightarrow> monitor \<Rightarrow> monitor" where
  "panelCheck m ranking numBats s =
     (let s = s\<lparr>chargerOff := True\<rparr>;
          s = (case find (\<lambda>index. healthState (batteryAt s index) \<noteq> missingH
                                   \<and> getBatteryVoltage m index < getPanelVoltage m 0 + 128)
                      (ranked ranking numBats) of
                 None \<Rightarrow> s
               | Some index \<Rightarrow>
                   s\<lparr>decisionStatus := decisionStatus s OR 0x100, chargerOff := False\<rparr>)
      in if chargerOff s then s\<lparr>batteryUnderCharge := 0\<rparr> else s)"

text \<open>The charger is disconnected when all batteries examined are in float phase.\<close>

definition floatCheck :: "int list \<Rightarrow> int \<Rightarrow> monitor \<Rightarrow> monitor" where
  "floatCheck ranking numBats s =
     (let allInFloat =
            (case find (\<lambda>index. healthState (batteryAt s index) \<noteq> missingH
                                  \<and> chargingPhase s index \<noteq> floatC)
                    (ranked ranking numBats) of
               None \<Rightarrow> True
             | Some index \<Rightarrow> False)
      in if allInFloat
         then s\<lparr>decisionStatus := decisionStatus s OR 0x200, chargerOff := True,
                batteryUnderCharge := 0\<rparr>
         else s)"

section \<open>The monitor loop: allocation\<close>

text \<open>
  One battery: the loads and the charger go to it. The health test reads
  \<^verbatim>\<open>battery[index]\<close> with the battery number as it is.
\<close>

definition oneBattery :: "int list \<Rightarrow> monitor \<Rightarrow> monitor" where
  "oneBattery ranking s =
     (let index = ranking ! 0;
          s = s\<lparr>decisionStatus := decisionStatus s OR 0x1000,
                batteryUnderCharge := index, batteryUnderLoad := index\<rparr>
      in if healthState (batteryAt s index) = weakH
         then s\<lparr>decisionStatus := decisionStatus s OR 0x40, batteryUnderLoad := 0\<rparr>
         else s)"

text \<open>
  \<open>SEPARATE_LOAD\<close> is bit 0 and \<open>PRESERVE_ISOLATION\<close> bit 1 of the monitor strategy.
\<close>

definition SEPARATE_LOAD :: "config \<Rightarrow> bool" where
  "SEPARATE_LOAD cfg = (monitorStrategy cfg AND 1 \<noteq> 0)"

definition PRESERVE_ISOLATION :: "config \<Rightarrow> bool" where
  "PRESERVE_ISOLATION cfg = (monitorStrategy cfg AND 2 \<noteq> 0)"

text \<open>
  The loops of the charger allocation run from the lowest SoC upwards:
  \<^verbatim>\<open>index = batteryFillStateSort[numBats-i-1]\<close>.
\<close>

definition upwards :: "int list \<Rightarrow> int \<Rightarrow> int list" where
  "upwards ranking numBats = rev (ranked ranking numBats)"

text \<open>
  The steps of the charger allocation, in the order of the source. \<open>lowestBattery\<close>
  is \<^verbatim>\<open>batteryFillStateSort[numBats-1]\<close>; the source reads it ahead of the
  decisions and uses it only here, where \<open>numBats\<close> is above 1.
\<close>

definition chargerReleaseLow :: "int list \<Rightarrow> int \<Rightarrow> monitor \<Rightarrow> monitor" where
  "chargerReleaseLow ranking numBats s =
     (let lowestBattery = ranking ! nat (numBats - 1)
      in if fillState (batteryAt s (lowestBattery - 1)) \<noteq> normalF
         then s\<lparr>batteryUnderCharge := 0\<rparr> else s)"

definition chargerToCritical :: "int list \<Rightarrow> int \<Rightarrow> monitor \<Rightarrow> monitor" where
  "chargerToCritical ranking numBats s =
     (let lowestBattery = ranking ! nat (numBats - 1)
      in if fillState (batteryAt s (lowestBattery - 1)) = criticalF
         then s\<lparr>batteryUnderCharge := lowestBattery,
                decisionStatus := decisionStatus s OR 0x08\<rparr>
         else s)"

definition chargerToWeak :: "int list \<Rightarrow> int \<Rightarrow> monitor \<Rightarrow> monitor" where
  "chargerToWeak ranking numBats s =
     (case find (\<lambda>index. healthState (batteryAt s (index - 1)) = weakH)
             (upwards ranking numBats) of
        None \<Rightarrow> s
      | Some index \<Rightarrow> s\<lparr>batteryUnderCharge := index,
                         decisionStatus := decisionStatus s OR 0x04\<rparr>)"

definition chargerToLowestIsolatable ::
  "config \<Rightarrow> int list \<Rightarrow> int \<Rightarrow> int \<Rightarrow> monitor \<Rightarrow> monitor" where
  "chargerToLowestIsolatable cfg ranking numBats longest s =
     (let isolatable = (numBats > 2)
      in if batteryUnderCharge s = 0 \<and> isolatable
         then (case find (\<lambda>index.
                            let floatPhase = (chargingPhase s (index - 1) = floatC);
                                restPhase = (chargingPhase s (index - 1) = restC);
                                isolated = (index = longest \<and> PRESERVE_ISOLATION cfg)
                            in \<not> floatPhase \<and> \<not> restPhase \<and> \<not> isolated)
                     (upwards ranking numBats) of
                 None \<Rightarrow> s
               | Some index \<Rightarrow> s\<lparr>decisionStatus := decisionStatus s OR 0x01,
                                  batteryUnderCharge := index\<rparr>)
         else s)"

definition chargerToLowest :: "int list \<Rightarrow> int \<Rightarrow> monitor \<Rightarrow> monitor" where
  "chargerToLowest ranking numBats s =
     (if batteryUnderCharge s = 0
      then (case find (\<lambda>index.
                         let floatPhase = (chargingPhase s (index - 1) = floatC);
                             restPhase = (chargingPhase s (index - 1) = restC)
                         in \<not> floatPhase \<and> \<not> restPhase)
                  (upwards ranking numBats) of
              None \<Rightarrow> s
            | Some index \<Rightarrow> s\<lparr>decisionStatus := decisionStatus s OR 0x02,
                               batteryUnderCharge := index\<rparr>)
      else s)"

definition chargerToLower :: "int list \<Rightarrow> int \<Rightarrow> monitor \<Rightarrow> monitor" where
  "chargerToLower ranking numBats s =
     (if batteryUnderCharge s \<noteq> 0
         \<and> fillState (batteryAt s (batteryUnderCharge s - 1)) = normalF
      then (case find (\<lambda>index.
                         let floatPhase = (chargingPhase s (index - 1) = floatC);
                             restPhase = (chargingPhase s (index - 1) = restC);
                             better = (SoC (batteryAt s (batteryUnderCharge s - 1))
                                         > SoC (batteryAt s (index - 1)) + 5 * 256)
                         in \<not> floatPhase \<and> \<not> restPhase \<and> better)
                  (upwards ranking numBats) of
              None \<Rightarrow> s
            | Some index \<Rightarrow> s\<lparr>batteryUnderCharge := index,
                               decisionStatus := decisionStatus s OR 0x03\<rparr>)
      else s)"

text \<open>The charger allocation, run when the charger is not off.\<close>

definition allocateCharger ::
  "config \<Rightarrow> int list \<Rightarrow> int \<Rightarrow> int \<Rightarrow> monitor \<Rightarrow> monitor" where
  "allocateCharger cfg ranking numBats longest s =
     (let s = chargerReleaseLow ranking numBats s;
          s = chargerToCritical ranking numBats s;
          s = chargerToWeak ranking numBats s;
          s = chargerToLowestIsolatable cfg ranking numBats longest s;
          s = chargerToLowest ranking numBats s;
          s = chargerToLower ranking numBats s
      in s)"

text \<open>
  The steps of the load allocation up to the point where a battery has been chosen, if
  one that is not weak exists. The loops run from the highest SoC downwards.
\<close>

definition loadReleaseCharging :: "config \<Rightarrow> monitor \<Rightarrow> monitor" where
  "loadReleaseCharging cfg s =
     (if batteryUnderLoad s = batteryUnderCharge s \<and> SEPARATE_LOAD cfg
      then s\<lparr>batteryUnderLoad := 0\<rparr> else s)"

definition loadReleaseWeak :: "monitor \<Rightarrow> monitor" where
  "loadReleaseWeak s =
     (if batteryUnderLoad s \<noteq> 0
         \<and> healthState (batteryAt s (batteryUnderLoad s - 1)) = weakH
      then s\<lparr>batteryUnderLoad := 0\<rparr> else s)"

definition loadReleaseLow :: "monitor \<Rightarrow> monitor" where
  "loadReleaseLow s =
     (if batteryUnderLoad s \<noteq> 0
         \<and> fillState (batteryAt s (batteryUnderLoad s - 1)) \<noteq> normalF
      then s\<lparr>batteryUnderLoad := 0\<rparr> else s)"

definition loadToHighestIsolatable ::
  "config \<Rightarrow> int list \<Rightarrow> int \<Rightarrow> int \<Rightarrow> monitor \<Rightarrow> monitor" where
  "loadToHighestIsolatable cfg ranking numBats longest s =
     (let isolatable = (numBats > 2)
      in if batteryUnderLoad s = 0 \<and> isolatable
         then (case find (\<lambda>index.
                            let isolated = (index = longest \<and> PRESERVE_ISOLATION cfg);
                                charging = (index = batteryUnderCharge s \<and> SEPARATE_LOAD cfg);
                                weak = (healthState (batteryAt s (index - 1)) = weakH)
                            in \<not> weak \<and> \<not> isolated \<and> \<not> charging)
                     (ranked ranking numBats) of
                 None \<Rightarrow> s
               | Some index \<Rightarrow> s\<lparr>batteryUnderLoad := index,
                                  decisionStatus := decisionStatus s OR 0x10\<rparr>)
         else s)"

definition loadToHighest :: "config \<Rightarrow> int list \<Rightarrow> int \<Rightarrow> monitor \<Rightarrow> monitor" where
  "loadToHighest cfg ranking numBats s =
     (if batteryUnderLoad s = 0
      then (case find (\<lambda>index.
                         let charging = (index = batteryUnderCharge s \<and> SEPARATE_LOAD cfg);
                             weak = (healthState (batteryAt s (index - 1)) = weakH)
                         in \<not> weak \<and> \<not> charging)
                  (ranked ranking numBats) of
              None \<Rightarrow> s
            | Some index \<Rightarrow> s\<lparr>batteryUnderLoad := index,
                               decisionStatus := decisionStatus s OR 0x20\<rparr>)
      else s)"

definition loadToNotWeak :: "int list \<Rightarrow> int \<Rightarrow> monitor \<Rightarrow> monitor" where
  "loadToNotWeak ranking numBats s =
     (if batteryUnderLoad s = 0
      then (case find (\<lambda>index.
                         let weak = (healthState (batteryAt s (index - 1)) = weakH)
                         in \<not> weak)
                  (ranked ranking numBats) of
              None \<Rightarrow> s
            | Some index \<Rightarrow> s\<lparr>batteryUnderLoad := index,
                               decisionStatus := decisionStatus s OR 0x40\<rparr>)
      else s)"

definition allocateLoad ::
  "config \<Rightarrow> int list \<Rightarrow> int \<Rightarrow> int \<Rightarrow> monitor \<Rightarrow> monitor" where
  "allocateLoad cfg ranking numBats longest s =
     (let s = loadReleaseCharging cfg s;
          s = loadReleaseWeak s;
          s = loadReleaseLow s;
          s = loadToHighestIsolatable cfg ranking numBats longest s;
          s = loadToHighest cfg ranking numBats s;
          s = loadToNotWeak ranking numBats s
      in s)"

text \<open>
  If the load has ended up on a low or critical battery, a better one is looked for. The
  comparison reads \<^verbatim>\<open>battery[batteryUnderCharge-1].SoC\<close> whether or not a battery is
  under charge; \<open>batteryUnderCharge\<close> is promoted to \<open>int\<close> before the subtraction.
\<close>

definition reconsiderLoad :: "config \<Rightarrow> int list \<Rightarrow> int \<Rightarrow> monitor \<Rightarrow> monitor" where
  "reconsiderLoad cfg ranking numBats s =
     (if batteryUnderLoad s \<noteq> 0
         \<and> fillState (batteryAt s (batteryUnderLoad s - 1)) \<noteq> normalF
      then (case find (\<lambda>index.
                         let charging = (index = batteryUnderCharge s \<and> SEPARATE_LOAD cfg);
                             weak = (healthState (batteryAt s (index - 1)) = weakH);
                             better = (SoC (batteryAt s (batteryUnderCharge s - 1))
                                         > SoC (batteryAt s (index - 1)) + 5 * 256)
                         in \<not> weak \<and> \<not> charging \<and> better)
                  (ranked ranking numBats) of
              None \<Rightarrow> s
            | Some index \<Rightarrow> s\<lparr>batteryUnderLoad := index,
                               decisionStatus := decisionStatus s OR 0x30\<rparr>)
      else s)"

text \<open>A load left on a critical battery moves to the battery under charge.\<close>

definition loadToCharging :: "monitor \<Rightarrow> monitor" where
  "loadToCharging s =
     (if batteryUnderCharge s \<noteq> 0 \<and> batteryUnderLoad s \<noteq> 0
         \<and> healthState (batteryAt s (batteryUnderCharge s - 1)) \<noteq> weakH
         \<and> fillState (batteryAt s (batteryUnderLoad s - 1)) = criticalF
      then s\<lparr>batteryUnderLoad := batteryUnderCharge s,
             decisionStatus := decisionStatus s OR 0x80\<rparr>
      else s)"

definition severalBatteries ::
  "config \<Rightarrow> int list \<Rightarrow> int \<Rightarrow> int \<Rightarrow> monitor \<Rightarrow> monitor" where
  "severalBatteries cfg ranking numBats longest s =
     (let s = s\<lparr>decisionStatus := decisionStatus s OR 0x2000\<rparr>;
          s = (if \<not> chargerOff s then allocateCharger cfg ranking numBats longest s else s);
          s = allocateLoad cfg ranking numBats longest s;
          s = reconsiderLoad cfg ranking numBats s;
          s = loadToCharging s
      in s)"

text \<open>The decisions of one pass, from the ranking to the allocation.\<close>

definition decide :: "config \<Rightarrow> measurements \<Rightarrow> int \<Rightarrow> monitor \<Rightarrow> monitor" where
  "decide cfg m numBats s =
     (let ranking = batteryFillStateSort s;
          longest = longestBattery s numBats;
          s = s\<lparr>decisionStatus := 0\<rparr>;
          s = restartBulk cfg ranking numBats s;
          s = releaseCharged s;
          s = panelCheck m ranking numBats s;
          s = floatCheck ranking numBats s
      in if numBats = 1 then oneBattery ranking s
         else if numBats > 1 then severalBatteries cfg ranking numBats longest s
         else s)"

section \<open>The monitor loop: operational state, switches and idle reset\<close>

text \<open>
  The operational state of a battery follows the allocation; the charger is tested last.
  \<open>i\<close> is the array index.
\<close>

definition assignOpState :: "int \<Rightarrow> int \<Rightarrow> int \<Rightarrow> batteryStates \<Rightarrow> batteryStates" where
  "assignOpState underLoad underCharge i b =
     (let b = b\<lparr>opState := isolatedO\<rparr>;
          b = (if underLoad > 0 \<and> underLoad = i + 1 then b\<lparr>opState := loadedO\<rparr> else b);
          b = (if underCharge > 0 \<and> i = underCharge - 1 then b\<lparr>opState := chargingO\<rparr>
               else b)
      in b)"

text \<open>
  A battery that leaves isolation after more than four hours has its SoC set from the
  open circuit voltage.
\<close>

definition leaveIsolation ::
  "config \<Rightarrow> measurements \<Rightarrow> battery_Op_States \<Rightarrow> int \<Rightarrow> batteryStates \<Rightarrow> batteryStates" where
  "leaveIsolation cfg m lastOpState i b =
     (if lastOpState = isolatedO \<and> opState b \<noteq> isolatedO
         \<and> isolationTime b > u32 (4 * 3600 * 1024) div u32 (monitorDelay cfg)
      then (setSoC (batteryCapacity cfg i)
              (computeSoC (getBatteryVoltage m i) (getTemperature m) (batteryType cfg i)) b)
           \<lparr>isolationTime := 0\<rparr>
      else b)"

text \<open>
  The isolation timer restarts at 10 for a battery that is not isolated, and for every
  battery when the loads and the charger are on the same one.
\<close>

definition restartIsolation :: "int \<Rightarrow> int \<Rightarrow> batteryStates \<Rightarrow> batteryStates" where
  "restartIsolation underLoad underCharge b =
     (if opState b \<noteq> isolatedO \<or> underLoad = underCharge then b\<lparr>isolationTime := 10\<rparr>
      else b)"

text \<open>The body of the loop over the batteries; a missing battery is left as it is.\<close>

definition updateOpState ::
  "config \<Rightarrow> measurements \<Rightarrow> int \<Rightarrow> int \<Rightarrow> int \<Rightarrow> batteryStates \<Rightarrow> batteryStates" where
  "updateOpState cfg m underLoad underCharge i b =
     (let lastOpState = opState b
      in if healthState b \<noteq> missingH
         then restartIsolation underLoad underCharge
                (leaveIsolation cfg m lastOpState i
                   (assignOpState underLoad underCharge i b))
         else b)"

definition updateOpStates :: "config \<Rightarrow> measurements \<Rightarrow> monitor \<Rightarrow> monitor" where
  "updateOpStates cfg m s =
     s\<lparr>battery := map (\<lambda>i. updateOpState cfg m (batteryUnderLoad s) (batteryUnderCharge s)
                              (int i) (battery s ! i))
                     [0..<NUM_BATS s]\<rparr>"

text \<open>
  Modelled from the spec: the switch destinations are macros of a header that is not part
  of the sources at hand. The calibration addresses load 1 as 0 and load 2 as 1, and
  clears the destinations \<open>0 .. NUM_LOADS+NUM_PANELS-1\<close>.
\<close>

definition LOAD_1 :: int where
  "LOAD_1 = 0"

definition LOAD_2 :: int where
  "LOAD_2 = 1"

definition PANEL :: int where
  "PANEL = 2"

text \<open>The switches are set when tracking is automatic.\<close>

definition setSwitches :: "config \<Rightarrow> measurements \<Rightarrow> monitor \<Rightarrow> monitor" where
  "setSwitches cfg m s =
     (if autoTrack cfg
      then s\<lparr>calls := calls s
                 @ [SetSwitch (batteryUnderLoad s) LOAD_2]
                 @ (if fillState (batteryAt s (batteryUnderLoad s - 1)) = criticalF
                    then [SetSwitch 0 LOAD_1]
                    else [SetSwitch (batteryUnderLoad s) LOAD_1])
                 @ (if getTemperature m < TEMPERATURE_LIMIT cfg * 256
                    then [SetSwitch (batteryUnderCharge s) PANEL] else [])
                 @ [SetPanelSwitchSetting (batteryUnderCharge s)]\<rparr>
      else s)"

text \<open>
  The SoC of a battery is set from the open circuit voltage after an hour of low current
  and after eight hours of isolation. \<open>monitorHour\<close> is
  \<^verbatim>\<open>(uint32_t)(3600*1000)/getMonitorDelay()\<close>.
\<close>

definition monitorHour :: "config \<Rightarrow> int" where
  "monitorHour cfg = u32 (3600 * 1000) div u32 (monitorDelay cfg)"

definition idleReset :: "config \<Rightarrow> measurements \<Rightarrow> int \<Rightarrow> batteryStates \<Rightarrow> batteryStates" where
  "idleReset cfg m i b =
     (if healthState b \<noteq> missingH
      then (let ocvSoC = computeSoC (getBatteryVoltage m i) (getTemperature m)
                           (batteryType cfg i);
                b = (if \<bar>getBatteryCurrent m i\<bar> < 30
                     then b\<lparr>currentSteady := u16 (currentSteady b + 1)\<rparr>
                     else b\<lparr>currentSteady := 0\<rparr>);
                b = (if currentSteady b > monitorHour cfg
                     then (setSoC (batteryCapacity cfg i) ocvSoC b)\<lparr>currentSteady := 0\<rparr>
                     else b);
                b = b\<lparr>isolationTime := u32 (isolationTime b + 1)\<rparr>;
                b = (if isolationTime b > u32 (8 * monitorHour cfg)
                     then (setSoC (batteryCapacity cfg i) ocvSoC b)\<lparr>isolationTime := 0\<rparr>
                     else b)
            in b)
      else b)"

definition idleResets :: "config \<Rightarrow> measurements \<Rightarrow> monitor \<Rightarrow> monitor" where
  "idleResets cfg m s =
     s\<lparr>battery := map (\<lambda>i. idleReset cfg m (int i) (battery s ! i)) [0..<NUM_BATS s]\<rparr>"

text \<open>
  One pass of the monitor loop after the calibration block. The report of the measurements
  at the start of the pass only sends messages and is left out.
\<close>

definition monitorTick :: "config \<Rightarrow> measurements \<Rightarrow> monitor \<Rightarrow> monitor" where
  "monitorTick cfg m s =
     (let s = removeMissing cfg s;
          numBats = countBats s;
          s = trackBatteries cfg m s;
          s = decide cfg m numBats s;
          s = updateOpStates cfg m s;
          s = setSwitches cfg m s;
          s = idleResets cfg m s
      in s)"

section \<open>Calibration\<close>

text \<open>
  What the calibration reads while it runs: the switch control bits at its start, the
  indicators at each read (by test and battery), and the interface currents after each
  test (by test and interface).
\<close>

record calibrationReadings =
  getSwitchControlBits :: int
  getIndicators :: "nat \<Rightarrow> nat \<Rightarrow> int"
  getCurrent :: "nat \<Rightarrow> nat \<Rightarrow> int"

definition CALIBRATION_THRESHOLD :: int where
  "CALIBRATION_THRESHOLD = - 50"

definition OFFSET_START_VALUE :: int where
  "OFFSET_START_VALUE = 100"

text \<open>The switch settings of one test.\<close>

definition testSwitches :: "monitor \<Rightarrow> nat \<Rightarrow> call list" where
  "testSwitches s test =
     map (\<lambda>i. SetSwitch 0 (int i)) [0..<NUM_LOADS + NUM_PANELS]
     @ (if test < NUM_BATS s then [SetSwitch (int test + 1) 1]
        else if test < NUM_TESTS s - 1 then [SetSwitch (int test - int (NUM_BATS s) + 1) 0]
        else [])"

text \<open>A battery whose indicator bit is clear is marked missing.\<close>

definition markMissingStep ::
  "config \<Rightarrow> calibrationReadings \<Rightarrow> nat \<Rightarrow> monitor \<Rightarrow> nat \<Rightarrow> monitor" where
  "markMissingStep cfg cal test s i =
     (if drop_bit (2 * i) (getIndicators cal test i) AND 0x02 = 0
      then setBatterySoC cfg i 0
             (s\<lparr>battery := (battery s)[i := (battery s ! i)\<lparr>healthState := missingH\<rparr>]\<rparr>)
      else s)"

definition markMissing :: "config \<Rightarrow> calibrationReadings \<Rightarrow> nat \<Rightarrow> monitor \<Rightarrow> monitor" where
  "markMissing cfg cal test s = foldl (markMissingStep cfg cal test) s [0..<NUM_BATS s]"

text \<open>One test: switches, settling delay, indicators, currents, progress message.\<close>

definition calibrationTest ::
  "config \<Rightarrow> calibrationReadings \<Rightarrow> monitor \<times> int list list \<Rightarrow> nat
     \<Rightarrow> monitor \<times> int list list" where
  "calibrationTest cfg cal sr test =
     (let s = fst sr;
          results = snd sr;
          s = s\<lparr>calls := calls s @ testSwitches s test @ [TaskDelay]\<rparr>;
          s = markMissing cfg cal test s;
          row = map (\<lambda>i. s16 (getCurrent cal test i)) [0..<NUM_IFS s];
          s = s\<lparr>calls := calls s @ [DataMessage ''pQ'' 0 (int test)]\<rparr>
      in (s, results @ [row]))"

text \<open>The offset of one interface from its currents in all tests.\<close>

definition offsetOf :: "int list \<Rightarrow> int" where
  "offsetOf currents =
     (let offset = foldl (\<lambda>offset current.
                            if current > CALIBRATION_THRESHOLD \<and> current < offset
                            then current else offset)
                     OFFSET_START_VALUE currents
      in if offset = OFFSET_START_VALUE then 0 else offset)"

text \<open>The quiescent current: the largest current of the batteries that are present.\<close>

definition quiescentCurrent :: "monitor \<Rightarrow> int list list \<Rightarrow> int" where
  "quiescentCurrent s results =
     foldl (\<lambda>q i. if healthState (battery s ! i) \<noteq> missingH
                   then foldl (\<lambda>q test. let current = results ! test ! i
                                         in if current > CALIBRATION_THRESHOLD \<and> current > q
                                            then current else q)
                          q [0..<NUM_TESTS s]
                   else q)
       (- 100) [0..<NUM_BATS s]"

text \<open>The state of a battery that is not missing is reset at the end.\<close>

definition reseed :: "config \<Rightarrow> measurements \<Rightarrow> int \<Rightarrow> batteryStates \<Rightarrow> batteryStates" where
  "reseed cfg m i b =
     (if healthState b \<noteq> missingH
      then (setSoC (batteryCapacity cfg i)
              (computeSoC (getBatteryVoltage m i) (getTemperature m) (batteryType cfg i)) b)
           \<lparr>currentSteady := 0, isolationTime := 0, opState := isolatedO\<rparr>
      else b)"

text \<open>
  The calibration block of the monitor loop. The offsets are also copied to the
  configuration, which the call \<open>WriteConfigBlock\<close> writes to flash.
\<close>

definition calibration ::
  "config \<Rightarrow> calibrationReadings \<Rightarrow> measurements \<Rightarrow> monitor \<Rightarrow> monitor" where
  "calibration cfg cal m s =
     (let switchSettings = getSwitchControlBits cal;
          s = s\<lparr>currentOffsets := replicate (NUM_IFS s) 0\<rparr>;
          sr = foldl (calibrationTest cfg cal) (s, []) [0..<NUM_TESTS s];
          s = fst sr;
          results = snd sr;
          offsets = map (\<lambda>i. offsetOf (map (\<lambda>row. row ! i) results)) [0..<NUM_IFS s];
          results = map (\<lambda>row. map (\<lambda>i. s16 (row ! i - offsets ! i)) [0..<NUM_IFS s])
                      results;
          s = s\<lparr>currentOffsets := offsets\<rparr>;
          s = s\<lparr>calls := calls s
                     @ [DataMessage ''pQ'' (quiescentCurrent s results) 7,
                        SetSwitchControlBits switchSettings,
                        DataMessage ''dS'' switchSettings 0]\<rparr>;
          s = s\<lparr>battery := map (\<lambda>i. reseed cfg m (int i) (battery s ! i))
                               [0..<NUM_BATS s]\<rparr>;
          s = s\<lparr>batteryUnderLoad := 0, batteryUnderCharge := 0\<rparr>;
          s = s\<lparr>calls := calls s @ [WriteConfigBlock]\<rparr>
      in s\<lparr>calibrate := False\<rparr>)"

text \<open>The number of switch test configurations a run has gone through.\<close>

definition testsRun :: "monitor \<Rightarrow> nat" where
  "testsRun s = length (filter (\<lambda>c. c = TaskDelay) (calls s))"

text \<open>
  One pass of the monitor loop: the calibration, if requested, and then the rest.
  \<open>mc\<close> are the measurements at the end of the calibration.
\<close>

definition monitorPass ::
  "config \<Rightarrow> calibrationReadings \<Rightarrow> measurements \<Rightarrow> measurements \<Rightarrow> monitor \<Rightarrow> monitor" where
  "monitorPass cfg cal mc m s =
     monitorTick cfg m (if calibrate s then calibration cfg cal mc s else s)"

section \<open>Allocation to batteries that are present\<close>

text \<open>
  A number that is the number of a battery, from 1 to \<open>NUM_BATS\<close>, is the number of one
  that is not missing.
\<close>

definition notMissing :: "monitor \<Rightarrow> int \<Rightarrow> bool" where
  "notMissing s number =
     (number < 1 \<or> int (NUM_BATS s) < number
      \<or> healthState (batteryAt s (number - 1)) \<noteq> missingH)"

text \<open>
  The same for the ranked batteries, the battery under load and the battery under charge.
\<close>

definition allocationPresent :: "int list \<Rightarrow> int \<Rightarrow> monitor \<Rightarrow> bool" where
  "allocationPresent ranking numBats s =
     ((\<forall>x\<in>set (ranked ranking numBats). notMissing s x)
      \<and> notMissing s (batteryUnderLoad s) \<and> notMissing s (batteryUnderCharge s))"

text \<open>A number that is 0, for no battery, or the number of a battery.\<close>

definition batteryNumber :: "monitor \<Rightarrow> int \<Rightarrow> bool" where
  "batteryNumber s number = (0 \<le> number \<and> number \<le> int (NUM_BATS s))"

definition allocationNumbered :: "int list \<Rightarrow> int \<Rightarrow> monitor \<Rightarrow> bool" where
  "allocationNumbered ranking numBats s =
     ((\<forall>x\<in>set (ranked ranking numBats). batteryNumber s x)
      \<and> batteryNumber s (batteryUnderLoad s) \<and> batteryNumber s (batteryUnderCharge s))"

text \<open>The array indices of the batteries that are not missing and are in state loaded.\<close>

definition loadedBatteries :: "monitor \<Rightarrow> nat list" where
  "loadedBatteries s =
     filter (\<lambda>i. healthState (battery s ! i) \<noteq> missingH \<and> opState (battery s ! i) = loadedO)
       [0..<NUM_BATS s]"

section \<open>Example configuration and states\<close>

text \<open>
  A bank of three battery slots of 100 Ah wet cells, as in the scenarios of the
  specification. Voltages, SoC and temperature are scaled by 256: the low and critical
  voltages are 11.0 V and 10.5 V, the low and critical SoC 50 % and 25 %, the dropout
  voltage 10.0 V. All strategy bits are set and tracking is automatic.
\<close>

definition exampleConfig :: config where
  "exampleConfig =
     \<lparr>batteryCapacity = (\<lambda>i. 100), batteryType = (\<lambda>i. wetT),
      lowVoltage = 2816, criticalVoltage = 2688, lowSoC = 12800, criticalSoC = 6400,
      floatBulkSoC = 24320, monitorStrategy = 255, monitorDelay = 1000, autoTrack = True,
      WEAK_VOLTAGE = 2560, TEMPERATURE_LIMIT = 45\<rparr>"

text \<open>A good, isolated battery at the given SoC, with the charge that belongs to it.\<close>

definition batteryAtSoC :: "int \<Rightarrow> batteryStates" where
  "batteryAtSoC soc =
     \<lparr>currentSteady = 0, fillState = normalF, opState = isolatedO, healthState = goodH,
      lastCurrent = 0, lastVoltage = 0, SoC = soc, charge = soc * 3600, isolationTime = 0\<rparr>"

definition missingBattery :: batteryStates where
  "missingBattery = (batteryAtSoC 0)\<lparr>healthState := missingH\<rparr>"

text \<open>
  Night: every battery at 12.6 V (3226), the panel at 12.0 V (3072), 25 degrees, no
  charge accumulated.
\<close>

definition nightMeasurements :: measurements where
  "nightMeasurements =
     \<lparr>getBatteryVoltage = (\<lambda>i. 3226), getBatteryCurrent = (\<lambda>i. 100),
      getBatteryAccumulatedCharge = (\<lambda>i. 0), getPanelVoltage = (\<lambda>i. 3072),
      getTemperature = 6400\<rparr>"

text \<open>The same with every battery at 9.0 V (2304), below the dropout voltage.\<close>

definition weakMeasurements :: measurements where
  "weakMeasurements = nightMeasurements\<lparr>getBatteryVoltage := (\<lambda>i. 2304)\<rparr>"

text \<open>
  A monitor with the given batteries, nothing allocated, every charging phase bulk, and
  the record \<open>around\<close> in the memory around the battery array.
\<close>

definition monitorOf :: "batteryStates list \<Rightarrow> batteryStates \<Rightarrow> monitor" where
  "monitorOf batteries around =
     \<lparr>battery = batteries, outside = (\<lambda>i. around),
      currentOffsets = replicate (length batteries + 3) 0,
      batteryUnderCharge = 0, batteryUnderLoad = 0, chargerOff = False, calibrate = False,
      decisionStatus = 0, chargingPhase = (\<lambda>i. bulkC), calls = []\<rparr>"

text \<open>Battery 1 at 80 % alone; batteries 2 and 3 missing.\<close>

definition oneBatteryBank :: monitor where
  "oneBatteryBank =
     monitorOf [batteryAtSoC 20480, missingBattery, missingBattery] missingBattery"

text \<open>Batteries 1 and 2 at 90 % and 80 %; battery 3 missing.\<close>

definition twoBatteryBank :: monitor where
  "twoBatteryBank =
     monitorOf [batteryAtSoC 23040, batteryAtSoC 20480, missingBattery] missingBattery"

text \<open>
  Batteries 1 and 2 at 40 % and 35 %, below the low SoC; battery 3 missing. The memory
  around the array holds a record with the given SoC.
\<close>

definition lowBank :: "int \<Rightarrow> monitor" where
  "lowBank soc =
     monitorOf [batteryAtSoC 10240, batteryAtSoC 8960, missingBattery] (batteryAtSoC soc)"

text \<open>Three batteries at 90 %, 80 % and 70 %, with a calibration requested.\<close>

definition threeBatteryBank :: monitor where
  "threeBatteryBank =
     (monitorOf [batteryAtSoC 23040, batteryAtSoC 20480, batteryAtSoC 17920] missingBattery)
     \<lparr>calibrate := True\<rparr>"

text \<open>
  Three batteries at 90 %, 80 % and 70 %, and the record \<open>around\<close> in the memory around
  the battery array.
\<close>

definition fullBank :: "batteryStates \<Rightarrow> monitor" where
  "fullBank around =
     monitorOf [batteryAtSoC 23040, batteryAtSoC 20480, batteryAtSoC 17920] around"

text \<open>
  Night with the three batteries at 12.6 V; an index that is not the index of a battery
  reads 0 V.
\<close>

definition fullNightMeasurements :: measurements where
  "fullNightMeasurements =
     nightMeasurements\<lparr>getBatteryVoltage := (\<lambda>i. if 0 \<le> i \<and> i < 3 then 3226 else 0)\<rparr>"

text \<open>
  Batteries 1 and 2 at 80 % and 70 %, and battery 3 at 90 % under load, as a pass leaves
  them.
\<close>

definition loadedThird :: monitor where
  "loadedThird =
     (monitorOf [batteryAtSoC 20480, batteryAtSoC 17920,
                 (batteryAtSoC 23040)\<lparr>opState := loadedO\<rparr>] missingBattery)
     \<lparr>batteryUnderLoad := 3\<rparr>"

text \<open>
  Calibration readings of a bank at rest: every indicator shows its battery present
  (0x2A), every interface reads a current of 3.
\<close>

definition quietReadings :: calibrationReadings where
  "quietReadings =
     \<lparr>getSwitchControlBits = 0, getIndicators = (\<lambda>test i. 0x2A),
      getCurrent = (\<lambda>test i. 3)\<rparr>"

section \<open>Properties of the machine integers\<close>

lemma u32_range: "0 \<le> u32 x \<and> u32 x < 4294967296"
  by (simp add: u32_def)

lemma u32_id: "0 \<le> x \<Longrightarrow> x < 4294967296 \<Longrightarrow> u32 x = x"
  by (simp add: u32_def)

lemma s32_id: "- 2147483648 \<le> x \<Longrightarrow> x < 2147483648 \<Longrightarrow> s32 x = x"
  by (simp add: s32_def)

lemma s16_id: "- 32768 \<le> x \<Longrightarrow> x < 32768 \<Longrightarrow> s16 x = x"
  by (simp add: s16_def)

lemma u16_id: "0 \<le> x \<Longrightarrow> x < 65536 \<Longrightarrow> u16 x = x"
  by (simp add: u16_def)

lemma shifted_product_bound:
  "0 \<le> u32 x div 1048576 \<and> u32 x div 1048576 \<le> 4095"
proof -
  have "0 \<le> u32 x" and "u32 x < 4096 * 1048576"
    using u32_range [of x] by simp_all
  then show ?thesis
    by auto
qed

lemma s32_range: "- 2147483648 \<le> s32 x \<and> s32 x < 2147483648"
  by (simp add: s32_def)

lemma sdiv_nonneg: "0 \<le> a \<Longrightarrow> 0 < b \<Longrightarrow> a sdiv b = a div (b::int)"
  by (cases "a = 0") (simp_all add: signed_divide_int_def)

section \<open>Properties of computeSoC\<close>

lemma vFactor_bounds: "61441 \<le> vFactor t \<and> vFactor t \<le> 65536"
proof -
  let ?d = "u32 (42 * tDiff t * tDiff t) div 1048576"
  have d: "0 \<le> ?d \<and> ?d \<le> 4095"
    by (rule shifted_product_bound)
  then have "u32 (65536 - ?d) = 65536 - ?d"
    by (intro u32_id) simp_all
  with d show ?thesis
    by (simp add: vFactor_def)
qed

lemma ocv_eq_bounds:
  "ocv v t = u32 (u32 v * 65536) div vFactor t \<and> 0 \<le> ocv v t \<and> ocv v t \<le> 69904"
proof -
  let ?p = "u32 (u32 v * 65536)"
  have p: "0 \<le> ?p" "?p \<le> 4294967295"
    using u32_range [of "u32 v * 65536"] by simp_all
  have f: "61441 \<le> vFactor t" "vFactor t \<le> 65536"
    using vFactor_bounds [of t] by simp_all
  have lo: "0 \<le> ?p div vFactor t"
    using p f by (simp add: pos_imp_zdiv_nonneg_iff)
  have "?p div vFactor t \<le> ?p div 61441"
    using p f by (intro zdiv_mono2) simp_all
  also have "\<dots> \<le> 4294967295 div 61441"
    using p by (intro zdiv_mono1) simp_all
  finally have hi: "?p div vFactor t \<le> 69904"
    by simp
  from lo hi have "s32 (?p div vFactor t) = ?p div vFactor t"
    by (intro s32_id) simp_all
  with lo hi show ?thesis
    by (simp add: ocv_def)
qed

lemma ocv_mono:
  assumes "0 \<le> v1" and "v1 \<le> v2" and "v2 < 65536"
  shows "ocv v1 t \<le> ocv v2 t"
proof -
  have f: "61441 \<le> vFactor t"
    using vFactor_bounds [of t] by simp
  have e1: "u32 (u32 v1 * 65536) = v1 * 65536"
    using assms by (simp add: u32_id)
  have e2: "u32 (u32 v2 * 65536) = v2 * 65536"
    using assms by (simp add: u32_id)
  have "v1 * 65536 div vFactor t \<le> v2 * 65536 div vFactor t"
    using assms f by (intro zdiv_mono1) simp_all
  then show ?thesis
    using ocv_eq_bounds [of v1 t] ocv_eq_bounds [of v2 t] by (simp add: e1 e2)
qed



lemma socOfOcv_wet:
  assumes "0 \<le> v" and "v \<le> 69904"
  shows "socOfOcv wetT v =
           (let soc = (32000 * v - 97190400) div 256
            in if soc > 25600 then 25600 else if soc < 0 then 0 else soc)"
  using assms by (simp add: socOfOcv_def Let_def s32_id s16_id)




lemma socOfOcv_gel_high:
  assumes "3178 \<le> v" and "v \<le> 69904" and "type \<noteq> wetT"
  shows "socOfOcv type v =
           (let soc = (32000 * v - 98406400) div 256
            in if soc > 25600 then 25600 else if soc < 0 then 0 else soc)"
  using assms by (cases type) (simp_all add: socOfOcv_def Let_def s32_id s16_id)

lemma socOfOcv_gel_mid:
  assumes "3075 < v" and "v < 3178" and "type \<noteq> wetT"
  shows "socOfOcv type v =
           (let soc = (16000 * v - 47558400) div 256
            in if soc > 25600 then 25600 else if soc < 0 then 0 else soc)"
proof -
  have "(16000 * v - 47558400) div 256 \<le> (16000 * 3178 - 47558400) div 256"
    using assms by (intro zdiv_mono1) simp_all
  then have "(16000 * v - 47558400) div 256 \<le> 12850"
    by simp
  with assms show ?thesis
    by (cases type) (simp_all add: socOfOcv_def Let_def s32_id s16_id)
qed

lemma socOfOcv_gel_low:
  assumes "0 \<le> v" and "v \<le> 3075" and "type \<noteq> wetT"
  shows "socOfOcv type v =
           (let soc = (32000 * v - 96758400) div 256
            in if soc > 25600 then 25600 else if soc < 0 then 0 else soc)"
proof -
  have "(32000 * v - 96758400) div 256 \<le> (32000 * 3075 - 96758400) div 256"
    using assms by (intro zdiv_mono1) simp_all
  then have "(32000 * v - 96758400) div 256 \<le> 6412"
    by simp
  with assms show ?thesis
    by (cases type) (simp_all add: socOfOcv_def Let_def s32_id s16_id)
qed

text \<open>The value before the shift, as a function of the open circuit voltage.\<close>

lemma socOfOcv_unwrapped:
  assumes "0 \<le> v" and "v \<le> 69904"
  shows "socOfOcv type v =
           (let soc = (if type = wetT then 32000 * v - 97190400
                       else if 3178 \<le> v then 32000 * v - 98406400
                       else if 3075 < v then 16000 * v - 47558400
                       else 32000 * v - 96758400) div 256
            in if soc > 25600 then 25600 else if soc < 0 then 0 else soc)"
proof (cases "type = wetT")
  case True
  with assms show ?thesis by (simp add: socOfOcv_wet)
next
  case False
  with assms show ?thesis
    using socOfOcv_gel_high [of v type] socOfOcv_gel_mid [of v type]
      socOfOcv_gel_low [of v type]
    by (cases "3178 \<le> v"; cases "3075 < v") simp_all
qed

lemma clamp_mono:
  "a \<le> b \<Longrightarrow>
     (let soc = a in if soc > 25600 then 25600 else if soc < 0 then 0 else soc)
       \<le> (let soc = b in if soc > (25600::int) then 25600 else if soc < 0 then 0 else soc)"
  by (simp add: Let_def)

lemma socOfOcv_mono:
  assumes "0 \<le> a" and "a \<le> b" and "b \<le> 69904"
  shows "socOfOcv type a \<le> socOfOcv type b"
proof -
  let ?raw = "\<lambda>v. if type = wetT then 32000 * v - 97190400
                       else if 3178 \<le> v then 32000 * v - 98406400
                       else if 3075 < v then 16000 * v - 47558400
                       else 32000 * v - 96758400"
  have "?raw a \<le> ?raw b"
    using assms by (simp split: if_splits)
  then have "?raw a div 256 \<le> ?raw b div 256"
    by (intro zdiv_mono1) simp_all
  moreover have "socOfOcv type a = (let soc = ?raw a div 256
            in if soc > 25600 then 25600 else if soc < 0 then 0 else soc)"
    using assms by (intro socOfOcv_unwrapped) simp_all
  moreover have "socOfOcv type b = (let soc = ?raw b div 256
            in if soc > 25600 then 25600 else if soc < 0 then 0 else soc)"
    using assms by (intro socOfOcv_unwrapped) simp_all
  ultimately show ?thesis
    by (simp only: clamp_mono)
qed

lemma computeSoC_range: "0 \<le> computeSoC v t type \<and> computeSoC v t type \<le> 25600"
  using ocv_eq_bounds [of v t]
  by (simp add: computeSoC_def socOfOcv_unwrapped Let_def)

text \<open>
  Claim C9, as amended. For every battery type and every temperature, computeSoC does not
  decrease when the voltage grows, as long as the voltages stay below 65536 (256 V in the
  scaling by 256), where the 32-bit product \<open>voltage*65536\<close> does not wrap.
\<close>

theorem computeSoC_monotone:
  assumes "0 \<le> v1" and "v1 \<le> v2" and "v2 < 65536"
  shows "computeSoC v1 t type \<le> computeSoC v2 t type"
  unfolding computeSoC_def
  using assms ocv_mono [of v1 v2 t] ocv_eq_bounds [of v1 t] ocv_eq_bounds [of v2 t]
  by (intro socOfOcv_mono) simp_all

theorem computeSoC_monotone_witness:
  "(0::int) \<le> 3000 \<and> (3000::int) \<le> 3200 \<and> (3200::int) < 65536
   \<and> computeSoC 3000 6400 gelT \<le> computeSoC 3200 6400 gelT"
  using computeSoC_monotone [of 3000 3200 6400 gelT] by simp

text \<open>
  Claim C9 as stated, for all voltages, fails where the product wraps: at the reference
  temperature a wet battery at 65535 is full and at 65536 it is empty.
\<close>

theorem computeSoC_not_monotone:
  "(65535::int) \<le> 65536
   \<and> \<not> computeSoC 65535 12518 wetT \<le> computeSoC 65536 12518 wetT"
  by code_simp

text \<open>
  Claim C10. For every temperature word the divisor \<open>vFactor\<close> lies between 61441 and
  65536, so the division that yields the open circuit voltage never divides by zero: for
  every voltage, temperature and battery type the open circuit voltage is the quotient
  by that divisor, and computeSoC returns a value from 0 to 25600.
\<close>

theorem vFactor_range:
  "61441 \<le> vFactor temperature \<and> vFactor temperature \<le> 65536 \<and> 0 < vFactor temperature
   \<and> ocv voltage temperature = u32 (u32 voltage * 65536) div vFactor temperature
   \<and> 0 \<le> computeSoC voltage temperature type
   \<and> computeSoC voltage temperature type \<le> 25600"
  using vFactor_bounds [of temperature] ocv_eq_bounds [of voltage temperature]
    computeSoC_range [of voltage temperature type]
  by simp

section \<open>State of charge and charge\<close>

lemma setSoC_frame:
  "healthState (setSoC c v b) = healthState b"
  "opState (setSoC c v b) = opState b"
  "fillState (setSoC c v b) = fillState b"
  "isolationTime (setSoC c v b) = isolationTime b"
  "currentSteady (setSoC c v b) = currentSteady b"
  by (simp_all add: setSoC_def Let_def)

text \<open>The charge after the integration lies between 0 and the capacity in coulombs.\<close>

lemma integrateCharge_charge:
  assumes "1 \<le> capacity" and "capacity \<le> 2330"
  shows "0 \<le> charge (integrateCharge capacity accumulated b)
         \<and> charge (integrateCharge capacity accumulated b) \<le> capacity * 3600 * 256"
proof -
  let ?c = "s32 (charge b + s16 accumulated)"
  let ?c1 = "if ?c < 0 then 0 else ?c"
  have m: "u32 (capacity * 3600 * 256) = capacity * 3600 * 256"
    using assms by (intro u32_id) simp_all
  have m': "s32 (capacity * 3600 * 256) = capacity * 3600 * 256"
    using assms by (intro s32_id) simp_all
  have c1: "0 \<le> ?c1 \<and> ?c1 < 2147483648"
    using s32_range [of "charge b + s16 accumulated"] by simp
  then have u: "u32 ?c1 = ?c1"
    by (intro u32_id) simp_all
  have "charge (integrateCharge capacity accumulated b)
          = (if ?c1 > capacity * 3600 * 256 then capacity * 3600 * 256 else ?c1)"
    unfolding integrateCharge_def Let_def using u m m' by simp
  with c1 assms show ?thesis
    by (simp split: if_splits)
qed

lemma integrateCharge_SoC:
  "SoC (integrateCharge capacity accumulated b)
     = u16 (charge (integrateCharge capacity accumulated b) sdiv s32 (capacity * 36))"
  by (simp add: integrateCharge_def Let_def)

lemma integrateCharge_coupled:
  assumes "1 \<le> capacity" and "capacity \<le> 2330"
  shows "SoC (integrateCharge capacity accumulated b)
           = charge (integrateCharge capacity accumulated b) div (capacity * 36)
         \<and> SoC (integrateCharge capacity accumulated b) \<le> 25600"
proof -
  let ?c = "charge (integrateCharge capacity accumulated b)"
  have c: "0 \<le> ?c" "?c \<le> capacity * 3600 * 256"
    using integrateCharge_charge [OF assms] by simp_all
  have d: "s32 (capacity * 36) = capacity * 36"
    using assms by (intro s32_id) simp_all
  have q0: "0 \<le> ?c div (capacity * 36)"
    using c assms by (simp add: pos_imp_zdiv_nonneg_iff)
  have "?c div (capacity * 36) \<le> (capacity * 36 * 25600) div (capacity * 36)"
    using c assms by (intro zdiv_mono1) simp_all
  then have q1: "?c div (capacity * 36) \<le> 25600"
    using assms by simp
  have "?c sdiv (capacity * 36) = ?c div (capacity * 36)"
    using c assms by (intro sdiv_nonneg) simp_all
  then have "SoC (integrateCharge capacity accumulated b) = u16 (?c div (capacity * 36))"
    by (simp add: integrateCharge_SoC d)
  also have "\<dots> = ?c div (capacity * 36)"
    using q0 q1 by (intro u16_id) simp_all
  finally show ?thesis
    using q1 by simp
qed

lemma setSoC_coupled:
  assumes "1 \<le> capacity" and "capacity \<le> 2330"
    and "0 \<le> soc" and "soc \<le> 25600" and "SoC b \<le> 25600"
  shows "SoC (setSoC capacity soc b) = soc
         \<and> charge (setSoC capacity soc b) = soc * capacity * 36
         \<and> SoC (setSoC capacity soc b) = charge (setSoC capacity soc b) div (capacity * 36)"
proof -
  define p where "p = soc * capacity"
  have s: "s16 soc = soc"
    using assms by (intro s16_id) simp_all
  have u: "u16 soc = soc"
    using assms by (intro u16_id) simp_all
  have "p \<le> 25600 * 2330"
    unfolding p_def using assms by (intro mult_mono) simp_all
  moreover have "0 \<le> p"
    unfolding p_def using assms by simp
  ultimately have "s32 (p * 36) = p * 36"
    by (intro s32_id) simp_all
  then have c: "charge (setSoC capacity soc b) = soc * capacity * 36"
    by (simp add: setSoC_def Let_def s p_def)
  have v: "SoC (setSoC capacity soc b) = soc"
    using assms by (simp add: setSoC_def Let_def s u)
  have "soc * capacity * 36 div (capacity * 36) = soc"
    using assms by simp
  with c v show ?thesis
    by simp
qed

text \<open>
  Claim C5, as amended. For a capacity from 1 to 2330 Ah, where the capacity in coulombs
  times 256 fits 32 bits, the SoC equals the charge divided by (capacity * 36), rounded
  down, after the integration of the accumulated charge, and after \<open>setBatterySoC\<close> with
  an argument from 0 to 25600 on a battery whose stored SoC is at most 25600.
\<close>

theorem soc_follows_charge:
  assumes "1 \<le> capacity" and "capacity \<le> 2330"
  shows "SoC (integrateCharge capacity accumulated b)
           = charge (integrateCharge capacity accumulated b) div (capacity * 36)
         \<and> (0 \<le> soc \<and> soc \<le> 25600 \<and> SoC b \<le> 25600
              \<longrightarrow> SoC (setSoC capacity soc b)
                    = charge (setSoC capacity soc b) div (capacity * 36))"
  using integrateCharge_coupled [OF assms, of accumulated b]
    setSoC_coupled [OF assms, of soc b]
  by blast

theorem soc_follows_charge_witness:
  "(1::int) \<le> 100 \<and> (100::int) \<le> 2330
   \<and> (0::int) \<le> 12800 \<and> (12800::int) \<le> 25600 \<and> SoC (batteryAtSoC 20480) \<le> 25600
   \<and> SoC (integrateCharge 100 500 (batteryAtSoC 20480))
       = charge (integrateCharge 100 500 (batteryAtSoC 20480)) div (100 * 36)
   \<and> SoC (setSoC 100 12800 (batteryAtSoC 20480))
       = charge (setSoC 100 12800 (batteryAtSoC 20480)) div (100 * 36)"
proof -
  have h: "(0::int) \<le> 12800 \<and> (12800::int) \<le> 25600 \<and> SoC (batteryAtSoC 20480) \<le> 25600"
    by (simp add: batteryAtSoC_def)
  show ?thesis
    using h soc_follows_charge [of 100 500 "batteryAtSoC 20480" 12800] by simp
qed

text \<open>
  Claim C5 as stated fails at the weak battery: a battery at 80 % whose voltage is below
  the dropout voltage leaves the update with SoC 0 and its charge untouched.
\<close>

theorem weak_battery_decouples:
  "SoC (trackBattery exampleConfig weakMeasurements (\<lambda>i. bulkC) 0 (batteryAtSoC 20480)) = 0
   \<and> charge (trackBattery exampleConfig weakMeasurements (\<lambda>i. bulkC) 0 (batteryAtSoC 20480))
         div (batteryCapacity exampleConfig 0 * 36) = 20480"
  by code_simp

text \<open>
  Claim C4. \<open>setBatterySoC\<close> tests the stored SoC, not its argument: with the argument
  30000 on a battery of 100 Ah at 80 % the SoC becomes 30000, above 25600, and the charge
  108000000, above the capacity of 92160000.
\<close>

theorem setBatterySoC_out_of_bounds:
  "SoC (battery (setBatterySoC exampleConfig 0 30000 oneBatteryBank) ! 0) = 30000
   \<and> charge (battery (setBatterySoC exampleConfig 0 30000 oneBatteryBank) ! 0) = 108000000
   \<and> batteryCapacity exampleConfig 0 * 3600 * 256 = 92160000"
  by code_simp

text \<open>
  Claim C2. The fill state tests the low thresholds first: a battery at 12.6 V and 10 %,
  below the critical SoC of 25 %, is reported low, not critical.
\<close>

theorem critical_reported_low:
  "fillStateOf exampleConfig 3226 2560 = lowF
   \<and> (2560::int) < criticalSoC exampleConfig"
  by (simp add: fillStateOf_def exampleConfig_def)

text \<open>With the critical thresholds not above the low ones, critical is never reported.\<close>

lemma fillStateOf_never_critical:
  assumes "criticalVoltage cfg \<le> lowVoltage cfg" and "criticalSoC cfg \<le> lowSoC cfg"
  shows "fillStateOf cfg v soc \<noteq> criticalF"
  using assms by (simp add: fillStateOf_def)

section \<open>What the steps of a pass leave unchanged\<close>

lemma setBatterySoC_frame:
  "length (battery (setBatterySoC cfg i soc s)) = length (battery s)"
  "outside (setBatterySoC cfg i soc s) = outside s"
  "batteryUnderCharge (setBatterySoC cfg i soc s) = batteryUnderCharge s"
  "batteryUnderLoad (setBatterySoC cfg i soc s) = batteryUnderLoad s"
  "calls (setBatterySoC cfg i soc s) = calls s"
  by (simp_all add: setBatterySoC_def)

lemma setBatterySoC_health:
  "healthState (battery (setBatterySoC cfg i soc s) ! j) = healthState (battery s ! j)"
proof (cases "i = j \<and> j < length (battery s)")
  case True
  then show ?thesis by (simp add: setBatterySoC_def setSoC_frame)
next
  case False
  then have "(battery s)[i := setSoC (batteryCapacity cfg (int i)) soc (battery s ! i)] ! j
               = battery s ! j"
    by (cases "i = j") (simp_all add: list_update_beyond)
  then show ?thesis by (simp add: setBatterySoC_def)
qed


lemma removeMissingStep_frame:
  "length (battery (removeMissingStep cfg s i)) = length (battery s)"
  "outside (removeMissingStep cfg s i) = outside s"
  "healthState (battery (removeMissingStep cfg s i) ! j) = healthState (battery s ! j)"
  by (simp_all add: removeMissingStep_def Let_def setBatterySoC_frame setBatterySoC_health)

lemma removeMissing_fold:
  "length (battery (foldl (removeMissingStep cfg) s is)) = length (battery s)
   \<and> outside (foldl (removeMissingStep cfg) s is) = outside s
   \<and> healthState (battery (foldl (removeMissingStep cfg) s is) ! j)
       = healthState (battery s ! j)"
  by (induction "is" arbitrary: s) (simp_all add: removeMissingStep_frame)

lemma removeMissing_health:
  "healthState (batteryAt (removeMissing cfg s) i) = healthState (batteryAt s i)"
  using removeMissing_fold [of cfg s "[0..<NUM_BATS s]"]
  by (simp add: batteryAt_def removeMissing_def)


lemma trackBattery_missing:
  "(healthState (trackBattery cfg m phase i b) = missingH) = (healthState b = missingH)"
  by (simp add: trackBattery_def integrateCharge_def weakCheck_def restCheck_def Let_def)

lemma trackBatteries_missing:
  "(healthState (batteryAt (trackBatteries cfg m s) i) = missingH)
     = (healthState (batteryAt s i) = missingH)"
proof (cases "0 \<le> i \<and> i < int (length (battery s))")
  case True
  then have "nat i < length (battery s)" by linarith
  with True show ?thesis
    by (simp add: batteryAt_def trackBatteries_def NUM_BATS_def trackBattery_missing)
next
  case False
  have "length (battery (trackBatteries cfg m s)) = length (battery s)"
    by (simp add: trackBatteries_def NUM_BATS_def)
  moreover have "outside (trackBatteries cfg m s) = outside s"
    by (simp add: trackBatteries_def)
  ultimately have "batteryAt (trackBatteries cfg m s) i = outside s i"
    using False unfolding batteryAt_def by presburger
  moreover have "batteryAt s i = outside s i"
    using False unfolding batteryAt_def by presburger
  ultimately show ?thesis by simp
qed

lemma restartBulkStep_frame:
  "battery (restartBulkStep cfg s index) = battery s"
  "outside (restartBulkStep cfg s index) = outside s"
  "batteryUnderCharge (restartBulkStep cfg s index) = batteryUnderCharge s"
  "batteryUnderLoad (restartBulkStep cfg s index) = batteryUnderLoad s"
  "decisionStatus (restartBulkStep cfg s index) = decisionStatus s"
  by (simp_all add: restartBulkStep_def)

lemma restartBulk_fold:
  "battery (foldl (restartBulkStep cfg) s xs) = battery s
   \<and> outside (foldl (restartBulkStep cfg) s xs) = outside s
   \<and> batteryUnderCharge (foldl (restartBulkStep cfg) s xs) = batteryUnderCharge s
   \<and> batteryUnderLoad (foldl (restartBulkStep cfg) s xs) = batteryUnderLoad s
   \<and> decisionStatus (foldl (restartBulkStep cfg) s xs) = decisionStatus s"
  by (induction xs arbitrary: s) (simp_all add: restartBulkStep_frame)

lemma restartBulk_frame:
  "battery (restartBulk cfg ranking numBats s) = battery s"
  "outside (restartBulk cfg ranking numBats s) = outside s"
  "batteryUnderCharge (restartBulk cfg ranking numBats s) = batteryUnderCharge s"
  "batteryUnderLoad (restartBulk cfg ranking numBats s) = batteryUnderLoad s"
  "decisionStatus (restartBulk cfg ranking numBats s) = decisionStatus s"
  using restartBulk_fold [of cfg s "ranked ranking numBats"]
  by (simp_all add: restartBulk_def)

lemma releaseCharged_frame:
  "battery (releaseCharged s) = battery s"
  "outside (releaseCharged s) = outside s"
  "decisionStatus (releaseCharged s) = decisionStatus s"
  by (simp_all add: releaseCharged_def Let_def)

lemma batteryAt_cong:
  "battery s' = battery s \<Longrightarrow> outside s' = outside s \<Longrightarrow> batteryAt s' = batteryAt s"
  by (rule ext) (simp add: batteryAt_def)

lemma batteryAt_update:
  "batteryAt (s\<lparr>chargerOff := c\<rparr>) = batteryAt s"
  "batteryAt (s\<lparr>decisionStatus := d\<rparr>) = batteryAt s"
  "batteryAt (s\<lparr>batteryUnderCharge := u\<rparr>) = batteryAt s"
  "batteryAt (s\<lparr>batteryUnderLoad := l\<rparr>) = batteryAt s"
  "batteryAt (s\<lparr>chargingPhase := p\<rparr>) = batteryAt s"
  "batteryAt (s\<lparr>calls := k\<rparr>) = batteryAt s"
  by (rule batteryAt_cong, simp, simp)+

text \<open>The panel check when no record it reads is below the panel voltage plus 128.\<close>

lemma panelCheck_night:
  assumes "\<forall>x\<in>set (ranked ranking numBats). healthState (batteryAt s x) \<noteq> missingH
             \<longrightarrow> getPanelVoltage m 0 + 128 \<le> getBatteryVoltage m x"
  shows "chargerOff (panelCheck m ranking numBats s)
         \<and> batteryUnderCharge (panelCheck m ranking numBats s) = 0
         \<and> decisionStatus (panelCheck m ranking numBats s) = decisionStatus s
         \<and> battery (panelCheck m ranking numBats s) = battery s
         \<and> outside (panelCheck m ranking numBats s) = outside s"
proof -
  have "\<not> (healthState (batteryAt s x) \<noteq> missingH
            \<and> getBatteryVoltage m x < getPanelVoltage m 0 + 128)"
    if "x \<in> set (ranked ranking numBats)" for x
    using assms that by fastforce
  then have "find (\<lambda>index. healthState (batteryAt (s\<lparr>chargerOff := True\<rparr>) index) \<noteq> missingH
                        \<and> getBatteryVoltage m index < getPanelVoltage m 0 + 128)
          (ranked ranking numBats) = None"
    unfolding find_None_iff batteryAt_update by blast
  then show ?thesis
    by (simp add: panelCheck_def Let_def)
qed

lemma panelCheck_bit8:
  assumes "\<not> bit (decisionStatus s) 8"
  shows "chargerOff (panelCheck m ranking numBats s)
           = (\<not> bit (decisionStatus (panelCheck m ranking numBats s)) 8)
         \<and> (chargerOff (panelCheck m ranking numBats s)
              \<longrightarrow> batteryUnderCharge (panelCheck m ranking numBats s) = 0)"
  using assms by (simp add: panelCheck_def Let_def bit_or_iff split: option.splits)

lemma floatCheck_frame:
  "battery (floatCheck ranking numBats s) = battery s"
  "outside (floatCheck ranking numBats s) = outside s"
  "bit (decisionStatus (floatCheck ranking numBats s)) 8 = bit (decisionStatus s) 8"
  "chargerOff s \<Longrightarrow> chargerOff (floatCheck ranking numBats s)"
  "batteryUnderCharge s = 0 \<Longrightarrow> batteryUnderCharge (floatCheck ranking numBats s) = 0"
  "chargerOff (floatCheck ranking numBats s) \<Longrightarrow> \<not> chargerOff s
     \<Longrightarrow> batteryUnderCharge (floatCheck ranking numBats s) = 0"
  by (simp_all add: floatCheck_def Let_def bit_or_iff split: option.splits)

lemma chargerReleaseLow_frame:
  "battery (chargerReleaseLow ranking numBats s) = battery s"
  "outside (chargerReleaseLow ranking numBats s) = outside s"
  "chargerOff (chargerReleaseLow ranking numBats s) = chargerOff s"
  "bit (decisionStatus (chargerReleaseLow ranking numBats s)) 8 = bit (decisionStatus s) 8"
  by (simp_all add: chargerReleaseLow_def Let_def bit_or_iff split: option.splits)

lemma chargerToCritical_frame:
  "battery (chargerToCritical ranking numBats s) = battery s"
  "outside (chargerToCritical ranking numBats s) = outside s"
  "chargerOff (chargerToCritical ranking numBats s) = chargerOff s"
  "bit (decisionStatus (chargerToCritical ranking numBats s)) 8 = bit (decisionStatus s) 8"
  by (simp_all add: chargerToCritical_def Let_def bit_or_iff split: option.splits)

lemma chargerToWeak_frame:
  "battery (chargerToWeak ranking numBats s) = battery s"
  "outside (chargerToWeak ranking numBats s) = outside s"
  "chargerOff (chargerToWeak ranking numBats s) = chargerOff s"
  "bit (decisionStatus (chargerToWeak ranking numBats s)) 8 = bit (decisionStatus s) 8"
  by (simp_all add: chargerToWeak_def Let_def bit_or_iff split: option.splits)

lemma chargerToLowestIsolatable_frame:
  "battery (chargerToLowestIsolatable cfg ranking numBats longest s) = battery s"
  "outside (chargerToLowestIsolatable cfg ranking numBats longest s) = outside s"
  "chargerOff (chargerToLowestIsolatable cfg ranking numBats longest s) = chargerOff s"
  "bit (decisionStatus (chargerToLowestIsolatable cfg ranking numBats longest s)) 8 = bit (decisionStatus s) 8"
  by (simp_all add: chargerToLowestIsolatable_def Let_def bit_or_iff split: option.splits)

lemma chargerToLowest_frame:
  "battery (chargerToLowest ranking numBats s) = battery s"
  "outside (chargerToLowest ranking numBats s) = outside s"
  "chargerOff (chargerToLowest ranking numBats s) = chargerOff s"
  "bit (decisionStatus (chargerToLowest ranking numBats s)) 8 = bit (decisionStatus s) 8"
  by (simp_all add: chargerToLowest_def Let_def bit_or_iff split: option.splits)

lemma chargerToLower_frame:
  "battery (chargerToLower ranking numBats s) = battery s"
  "outside (chargerToLower ranking numBats s) = outside s"
  "chargerOff (chargerToLower ranking numBats s) = chargerOff s"
  "bit (decisionStatus (chargerToLower ranking numBats s)) 8 = bit (decisionStatus s) 8"
  by (simp_all add: chargerToLower_def Let_def bit_or_iff split: option.splits)

lemma allocateCharger_frame:
  "battery (allocateCharger cfg ranking numBats longest s) = battery s"
  "outside (allocateCharger cfg ranking numBats longest s) = outside s"
  "chargerOff (allocateCharger cfg ranking numBats longest s) = chargerOff s"
  "bit (decisionStatus (allocateCharger cfg ranking numBats longest s)) 8
     = bit (decisionStatus s) 8"
  by (simp_all add: allocateCharger_def Let_def chargerReleaseLow_frame chargerToCritical_frame
        chargerToWeak_frame chargerToLowestIsolatable_frame chargerToLowest_frame
        chargerToLower_frame)

lemma loadReleaseCharging_frame:
  "battery (loadReleaseCharging cfg s) = battery s"
  "outside (loadReleaseCharging cfg s) = outside s"
  "chargerOff (loadReleaseCharging cfg s) = chargerOff s"
  "bit (decisionStatus (loadReleaseCharging cfg s)) 8 = bit (decisionStatus s) 8"
  "batteryUnderCharge (loadReleaseCharging cfg s) = batteryUnderCharge s"
  by (simp_all add: loadReleaseCharging_def Let_def bit_or_iff split: option.splits)

lemma loadReleaseWeak_frame:
  "battery (loadReleaseWeak s) = battery s"
  "outside (loadReleaseWeak s) = outside s"
  "chargerOff (loadReleaseWeak s) = chargerOff s"
  "bit (decisionStatus (loadReleaseWeak s)) 8 = bit (decisionStatus s) 8"
  "batteryUnderCharge (loadReleaseWeak s) = batteryUnderCharge s"
  by (simp_all add: loadReleaseWeak_def Let_def bit_or_iff split: option.splits)

lemma loadReleaseLow_frame:
  "battery (loadReleaseLow s) = battery s"
  "outside (loadReleaseLow s) = outside s"
  "chargerOff (loadReleaseLow s) = chargerOff s"
  "bit (decisionStatus (loadReleaseLow s)) 8 = bit (decisionStatus s) 8"
  "batteryUnderCharge (loadReleaseLow s) = batteryUnderCharge s"
  by (simp_all add: loadReleaseLow_def Let_def bit_or_iff split: option.splits)

lemma loadToHighestIsolatable_frame:
  "battery (loadToHighestIsolatable cfg ranking numBats longest s) = battery s"
  "outside (loadToHighestIsolatable cfg ranking numBats longest s) = outside s"
  "chargerOff (loadToHighestIsolatable cfg ranking numBats longest s) = chargerOff s"
  "bit (decisionStatus (loadToHighestIsolatable cfg ranking numBats longest s)) 8 = bit (decisionStatus s) 8"
  "batteryUnderCharge (loadToHighestIsolatable cfg ranking numBats longest s) = batteryUnderCharge s"
  by (simp_all add: loadToHighestIsolatable_def Let_def bit_or_iff split: option.splits)

lemma loadToHighest_frame:
  "battery (loadToHighest cfg ranking numBats s) = battery s"
  "outside (loadToHighest cfg ranking numBats s) = outside s"
  "chargerOff (loadToHighest cfg ranking numBats s) = chargerOff s"
  "bit (decisionStatus (loadToHighest cfg ranking numBats s)) 8 = bit (decisionStatus s) 8"
  "batteryUnderCharge (loadToHighest cfg ranking numBats s) = batteryUnderCharge s"
  by (simp_all add: loadToHighest_def Let_def bit_or_iff split: option.splits)

lemma loadToNotWeak_frame:
  "battery (loadToNotWeak ranking numBats s) = battery s"
  "outside (loadToNotWeak ranking numBats s) = outside s"
  "chargerOff (loadToNotWeak ranking numBats s) = chargerOff s"
  "bit (decisionStatus (loadToNotWeak ranking numBats s)) 8 = bit (decisionStatus s) 8"
  "batteryUnderCharge (loadToNotWeak ranking numBats s) = batteryUnderCharge s"
  by (simp_all add: loadToNotWeak_def Let_def bit_or_iff split: option.splits)

lemma reconsiderLoad_frame:
  "battery (reconsiderLoad cfg ranking numBats s) = battery s"
  "outside (reconsiderLoad cfg ranking numBats s) = outside s"
  "chargerOff (reconsiderLoad cfg ranking numBats s) = chargerOff s"
  "bit (decisionStatus (reconsiderLoad cfg ranking numBats s)) 8 = bit (decisionStatus s) 8"
  "batteryUnderCharge (reconsiderLoad cfg ranking numBats s) = batteryUnderCharge s"
  by (simp_all add: reconsiderLoad_def Let_def bit_or_iff split: option.splits)

lemma loadToCharging_frame:
  "battery (loadToCharging s) = battery s"
  "outside (loadToCharging s) = outside s"
  "chargerOff (loadToCharging s) = chargerOff s"
  "bit (decisionStatus (loadToCharging s)) 8 = bit (decisionStatus s) 8"
  "batteryUnderCharge (loadToCharging s) = batteryUnderCharge s"
  by (simp_all add: loadToCharging_def Let_def bit_or_iff split: option.splits)

lemma allocateLoad_frame:
  "battery (allocateLoad cfg ranking numBats longest s) = battery s"
  "outside (allocateLoad cfg ranking numBats longest s) = outside s"
  "chargerOff (allocateLoad cfg ranking numBats longest s) = chargerOff s"
  "bit (decisionStatus (allocateLoad cfg ranking numBats longest s)) 8
     = bit (decisionStatus s) 8"
  "batteryUnderCharge (allocateLoad cfg ranking numBats longest s) = batteryUnderCharge s"
  by (simp_all add: allocateLoad_def Let_def loadReleaseCharging_frame loadReleaseWeak_frame
        loadReleaseLow_frame loadToHighestIsolatable_frame loadToHighest_frame
        loadToNotWeak_frame)

lemma severalBatteries_frame:
  "battery (severalBatteries cfg ranking numBats longest s) = battery s"
  "outside (severalBatteries cfg ranking numBats longest s) = outside s"
  "chargerOff (severalBatteries cfg ranking numBats longest s) = chargerOff s"
  "bit (decisionStatus (severalBatteries cfg ranking numBats longest s)) 8
     = bit (decisionStatus s) 8"
  "chargerOff s \<Longrightarrow>
     batteryUnderCharge (severalBatteries cfg ranking numBats longest s) = batteryUnderCharge s"
  by (simp_all add: severalBatteries_def Let_def allocateCharger_frame allocateLoad_frame
        reconsiderLoad_frame loadToCharging_frame bit_or_iff)

lemma oneBattery_frame:
  "battery (oneBattery ranking s) = battery s"
  "outside (oneBattery ranking s) = outside s"
  "chargerOff (oneBattery ranking s) = chargerOff s"
  "bit (decisionStatus (oneBattery ranking s)) 8 = bit (decisionStatus s) 8"
  by (simp_all add: oneBattery_def Let_def bit_or_iff)


lemma updateOpStates_frame:
  "chargerOff (updateOpStates cfg m s) = chargerOff s"
  "batteryUnderCharge (updateOpStates cfg m s) = batteryUnderCharge s"
  "batteryUnderLoad (updateOpStates cfg m s) = batteryUnderLoad s"
  "decisionStatus (updateOpStates cfg m s) = decisionStatus s"
  by (simp_all add: updateOpStates_def)

lemma setSwitches_frame:
  "chargerOff (setSwitches cfg m s) = chargerOff s"
  "batteryUnderCharge (setSwitches cfg m s) = batteryUnderCharge s"
  "batteryUnderLoad (setSwitches cfg m s) = batteryUnderLoad s"
  "decisionStatus (setSwitches cfg m s) = decisionStatus s"
  "battery (setSwitches cfg m s) = battery s"
  by (simp_all add: setSwitches_def)

lemma idleResets_frame:
  "chargerOff (idleResets cfg m s) = chargerOff s"
  "batteryUnderCharge (idleResets cfg m s) = batteryUnderCharge s"
  "batteryUnderLoad (idleResets cfg m s) = batteryUnderLoad s"
  "decisionStatus (idleResets cfg m s) = decisionStatus s"
  by (simp_all add: idleResets_def)

lemma monitorTick_decide:
  "chargerOff (monitorTick cfg m s)
     = chargerOff (decide cfg m (countBats (removeMissing cfg s))
                     (trackBatteries cfg m (removeMissing cfg s)))"
  "batteryUnderCharge (monitorTick cfg m s)
     = batteryUnderCharge (decide cfg m (countBats (removeMissing cfg s))
                             (trackBatteries cfg m (removeMissing cfg s)))"
  "batteryUnderLoad (monitorTick cfg m s)
     = batteryUnderLoad (decide cfg m (countBats (removeMissing cfg s))
                           (trackBatteries cfg m (removeMissing cfg s)))"
  "decisionStatus (monitorTick cfg m s)
     = decisionStatus (decide cfg m (countBats (removeMissing cfg s))
                         (trackBatteries cfg m (removeMissing cfg s)))"
  by (simp_all add: monitorTick_def Let_def updateOpStates_frame setSwitches_frame
        idleResets_frame)

section \<open>The charger at night\<close>

text \<open>
  The decisions of a pass in which no record the panel check reads is below the panel
  voltage plus 128.
\<close>

lemma decide_night:
  assumes "\<forall>x\<in>set (ranked (batteryFillStateSort s) numBats).
             healthState (batteryAt s x) \<noteq> missingH
             \<longrightarrow> getPanelVoltage m 0 + 128 \<le> getBatteryVoltage m x"
  shows "chargerOff (decide cfg m numBats s)
         \<and> \<not> bit (decisionStatus (decide cfg m numBats s)) 8
         \<and> (numBats \<noteq> 1 \<longrightarrow> batteryUnderCharge (decide cfg m numBats s) = 0)"
proof -
  let ?r = "batteryFillStateSort s"
  let ?s1 = "releaseCharged (restartBulk cfg ?r numBats (s\<lparr>decisionStatus := 0\<rparr>))"
  let ?s2 = "panelCheck m ?r numBats ?s1"
  let ?s3 = "floatCheck ?r numBats ?s2"
  have at: "batteryAt ?s1 = batteryAt s"
    by (rule batteryAt_cong) (simp_all add: releaseCharged_frame restartBulk_frame)
  have ds: "decisionStatus ?s1 = 0"
    by (simp add: releaseCharged_frame restartBulk_frame)
  have p: "chargerOff ?s2 \<and> batteryUnderCharge ?s2 = 0 \<and> decisionStatus ?s2 = 0"
    using panelCheck_night [of ?r numBats ?s1 m] assms by (simp add: at ds)
  have f: "chargerOff ?s3 \<and> batteryUnderCharge ?s3 = 0 \<and> \<not> bit (decisionStatus ?s3) 8"
    using p by (simp add: floatCheck_frame)
  have d1: "numBats = 1 \<Longrightarrow> decide cfg m numBats s = oneBattery ?r ?s3"
    by (simp add: decide_def Let_def)
  have d2: "numBats > 1 \<Longrightarrow> decide cfg m numBats s
              = severalBatteries cfg ?r numBats (longestBattery s numBats) ?s3"
    by (simp add: decide_def Let_def)
  have d3: "numBats < 1 \<Longrightarrow> decide cfg m numBats s = ?s3"
    by (simp add: decide_def Let_def)
  consider "numBats = 1" | "numBats > 1" | "numBats < 1"
    by linarith
  then show ?thesis
  proof cases
    case 1
    from f 1 show ?thesis
      unfolding d1 [OF 1] by (simp add: oneBattery_frame)
  next
    case 2
    from f 2 show ?thesis
      unfolding d2 [OF 2] by (simp add: severalBatteries_frame)
  next
    case 3
    from f 3 show ?thesis
      unfolding d3 [OF 3] by simp
  qed
qed


lemma decide_charger_off:
  assumes "chargerOff (decide cfg m numBats s)" and "numBats \<noteq> 1"
  shows "batteryUnderCharge (decide cfg m numBats s) = 0"
proof -
  let ?r = "batteryFillStateSort s"
  let ?s1 = "releaseCharged (restartBulk cfg ?r numBats (s\<lparr>decisionStatus := 0\<rparr>))"
  let ?s2 = "panelCheck m ?r numBats ?s1"
  let ?s3 = "floatCheck ?r numBats ?s2"
  have "\<not> bit (decisionStatus ?s1) 8"
    by (simp add: releaseCharged_frame restartBulk_frame)
  then have p: "chargerOff ?s2 \<longrightarrow> batteryUnderCharge ?s2 = 0"
    using panelCheck_bit8 [where s = ?s1 and m = m and ranking = ?r and numBats = numBats]
    by simp
  have f: "chargerOff ?s3 \<longrightarrow> batteryUnderCharge ?s3 = 0"
    using p floatCheck_frame(5,6) [where s = ?s2 and ranking = ?r and numBats = numBats]
    by blast
  have d2: "numBats > 1 \<Longrightarrow> decide cfg m numBats s
              = severalBatteries cfg ?r numBats (longestBattery s numBats) ?s3"
    by (simp add: decide_def Let_def)
  have d3: "numBats < 1 \<Longrightarrow> decide cfg m numBats s = ?s3"
    by (simp add: decide_def Let_def)
  consider "numBats > 1" | "numBats < 1"
    using assms(2) by linarith
  then show ?thesis
  proof cases
    case 1
    from f assms(1) show ?thesis
      unfolding d2 [OF 1] by (simp add: severalBatteries_frame)
  next
    case 2
    from f assms(1) show ?thesis
      unfolding d3 [OF 2] by simp
  qed
qed

text \<open>With no battery or several present, a pass that ends with the charger off has no
  battery under charge.\<close>

lemma charger_off_several:
  assumes "chargerOff (monitorTick cfg m s)" and "countBats (removeMissing cfg s) \<noteq> 1"
  shows "batteryUnderCharge (monitorTick cfg m s) = 0"
  using assms decide_charger_off unfolding monitorTick_decide by blast

text \<open>
  Claim C1. With battery 1 alone at night the pass ends with the charger off and battery 1
  under charge.
\<close>

theorem single_battery_keeps_charger:
  "countBats (removeMissing exampleConfig oneBatteryBank) = 1
   \<and> chargerOff (monitorTick exampleConfig nightMeasurements oneBatteryBank)
   \<and> batteryUnderCharge (monitorTick exampleConfig nightMeasurements oneBatteryBank) = 1"
  by code_simp

section \<open>The battery array at the end of a pass\<close>

lemma idleReset_frame:
  "opState (idleReset cfg m i b) = opState b"
  "healthState (idleReset cfg m i b) = healthState b"
  by (simp_all add: idleReset_def Let_def setSoC_frame)

lemma assignOpState_frame:
  "healthState (assignOpState underLoad underCharge i b) = healthState b"
  "opState (assignOpState underLoad underCharge i b)
     = (if underCharge > 0 \<and> i = underCharge - 1 then chargingO
        else if underLoad > 0 \<and> underLoad = i + 1 then loadedO
        else isolatedO)"
  by (simp_all add: assignOpState_def Let_def)

lemma leaveIsolation_frame:
  "healthState (leaveIsolation cfg m lastOpState i b) = healthState b"
  "opState (leaveIsolation cfg m lastOpState i b) = opState b"
  by (simp_all add: leaveIsolation_def setSoC_frame)

lemma restartIsolation_frame:
  "healthState (restartIsolation underLoad underCharge b) = healthState b"
  "opState (restartIsolation underLoad underCharge b) = opState b"
  by (simp_all add: restartIsolation_def)

lemma updateOpState_health:
  "healthState (updateOpState cfg m underLoad underCharge i b) = healthState b"
  by (simp add: updateOpState_def Let_def assignOpState_frame leaveIsolation_frame
        restartIsolation_frame)

lemma updateOpState_op:
  assumes "healthState b \<noteq> missingH"
  shows "opState (updateOpState cfg m underLoad underCharge i b)
           = (if underCharge > 0 \<and> i = underCharge - 1 then chargingO
              else if underLoad > 0 \<and> underLoad = i + 1 then loadedO
              else isolatedO)"
  using assms
  by (simp add: updateOpState_def Let_def assignOpState_frame leaveIsolation_frame
        restartIsolation_frame)

text \<open>The battery array at the end of a pass, from the state after the decisions.\<close>

lemma monitorTick_battery:
  assumes "i < NUM_BATS (monitorTick cfg m s)"
  defines "d \<equiv> decide cfg m (countBats (removeMissing cfg s))
                  (trackBatteries cfg m (removeMissing cfg s))"
  shows "i < NUM_BATS d"
    and "battery (monitorTick cfg m s) ! i
           = idleReset cfg m (int i)
               (updateOpState cfg m (batteryUnderLoad d) (batteryUnderCharge d) (int i)
                  (battery d ! i))"
proof -
  have t: "monitorTick cfg m s = idleResets cfg m (setSwitches cfg m (updateOpStates cfg m d))"
    by (simp add: monitorTick_def Let_def d_def)
  have n: "NUM_BATS (monitorTick cfg m s) = NUM_BATS d"
    by (simp add: t NUM_BATS_def idleResets_def setSwitches_frame updateOpStates_def)
  from assms(1) n show i: "i < NUM_BATS d"
    by simp
  then show "battery (monitorTick cfg m s) ! i
           = idleReset cfg m (int i)
               (updateOpState cfg m (batteryUnderLoad d) (batteryUnderCharge d) (int i)
                  (battery d ! i))"
    by (simp add: t NUM_BATS_def idleResets_def setSwitches_frame updateOpStates_def)
qed

section \<open>The ranking\<close>

lemma swapAdjacent_mset:
  assumes "k + 1 < length ys"
  shows "length (swapAdjacent ys k) = length ys \<and> mset (swapAdjacent ys k) = mset ys"
  using assms mset_swap [of "k + 1" ys k] by (simp add: swapAdjacent_def)

lemma bubblePass_Suc:
  "bubblePass swap xs (Suc n) =
     (let ys = bubblePass swap xs n
      in if swap (ys ! n) (ys ! (n + 1)) then swapAdjacent ys n else ys)"
  by (simp add: bubblePass_def)

lemma bubblePass_mset:
  assumes "n < length xs"
  shows "length (bubblePass swap xs n) = length xs \<and> mset (bubblePass swap xs n) = mset xs"
  using assms
proof (induction n)
  case 0
  then show ?case by (simp add: bubblePass_def)
next
  case (Suc n)
  then have ih: "length (bubblePass swap xs n) = length xs"
    "mset (bubblePass swap xs n) = mset xs"
    by simp_all
  with Suc.prems have "n + 1 < length (bubblePass swap xs n)" by simp
  from swapAdjacent_mset [OF this] ih show ?case
    by (simp add: bubblePass_Suc Let_def)
qed

lemma bubbleSort_fold_mset:
  assumes "length ys = L" and "0 < L"
  shows "length (foldl (\<lambda>ys i. bubblePass swap ys (L - i - 1)) ys is) = L
         \<and> mset (foldl (\<lambda>ys i. bubblePass swap ys (L - i - 1)) ys is) = mset ys"
  using assms
proof (induction "is" arbitrary: ys)
  case Nil
  then show ?case by simp
next
  case (Cons i "is")
  have "L - i - 1 < length ys"
    using Cons.prems by simp
  from bubblePass_mset [OF this, of swap] Cons.prems
  have "length (bubblePass swap ys (L - i - 1)) = L"
    and m: "mset (bubblePass swap ys (L - i - 1)) = mset ys"
    by simp_all
  with Cons.IH [of "bubblePass swap ys (L - i - 1)"] Cons.prems show ?case
    by simp
qed

lemma bubbleSort_mset:
  "length (bubbleSort swap xs) = length xs \<and> mset (bubbleSort swap xs) = mset xs"
proof (cases "xs = []")
  case True
  then show ?thesis by (simp add: bubbleSort_def)
next
  case False
  then have "0 < length xs" by simp
  from bubbleSort_fold_mset [OF refl this, of swap "[0..<length xs - 1]"] show ?thesis
    by (simp add: bubbleSort_def)
qed

text \<open>One pass that moves an entry with property \<open>P\<close> towards the end.\<close>

lemma bubblePass_carry:
  assumes "n < length xs"
  shows "(\<forall>j. n < j \<longrightarrow> j < length xs \<longrightarrow> bubblePass (\<lambda>a b. P a) xs n ! j = xs ! j)
         \<and> ((\<exists>j\<le>n. P (xs ! j)) \<longrightarrow> P (bubblePass (\<lambda>a b. P a) xs n ! n))"
  using assms
proof (induction n)
  case 0
  then show ?case by (simp add: bubblePass_def)
next
  case (Suc n)
  let ?ys = "bubblePass (\<lambda>a b. P a) xs n"
  have len: "length ?ys = length xs"
    using Suc.prems bubblePass_mset [of n xs] by simp
  have same: "\<forall>j. n < j \<longrightarrow> j < length xs \<longrightarrow> ?ys ! j = xs ! j"
    and carry: "(\<exists>j\<le>n. P (xs ! j)) \<longrightarrow> P (?ys ! n)"
    using Suc by simp_all
  show ?case
  proof (cases "P (?ys ! n)")
    case True
    then have r: "bubblePass (\<lambda>a b. P a) xs (Suc n) = swapAdjacent ?ys n"
      by (simp add: bubblePass_Suc Let_def)
    show ?thesis
      unfolding r using True same len Suc.prems by (simp add: swapAdjacent_def)
  next
    case False
    then have r: "bubblePass (\<lambda>a b. P a) xs (Suc n) = ?ys"
      by (simp add: bubblePass_Suc Let_def)
    from False carry have none: "\<forall>j\<le>n. \<not> P (xs ! j)" by blast
    have "(\<exists>j\<le>Suc n. P (xs ! j)) \<longrightarrow> P (xs ! Suc n)"
      using none by (auto simp add: le_Suc_eq)
    then show ?thesis
      unfolding r using same Suc.prems by simp
  qed
qed

lemma bubblePass_take_set:
  assumes "n < length xs" and "n < m"
  shows "set (take m (bubblePass swap xs n)) = set (take m xs)"
  using assms
proof (induction n)
  case 0
  then show ?case by (simp add: bubblePass_def)
next
  case (Suc n)
  let ?ys = "bubblePass swap xs n"
  have len: "length ?ys = length xs"
    using Suc.prems bubblePass_mset [of n xs] by simp
  have ih: "set (take m ?ys) = set (take m xs)"
    using Suc by simp
  have "take m (swapAdjacent ?ys n) = (take m ?ys)[n := take m ?ys ! (n + 1), n + 1 := take m ?ys ! n]"
    using Suc.prems by (simp add: swapAdjacent_def take_update_swap)
  moreover have "set ((take m ?ys)[n := take m ?ys ! (n + 1), n + 1 := take m ?ys ! n])
                   = set (take m ?ys)"
    using Suc.prems len by (intro set_swap) simp_all
  ultimately show ?case
    using ih by (simp add: bubblePass_Suc Let_def)
qed

lemma prefix_ex:
  assumes "p < length r"
  shows "(\<exists>j\<le>p. P (r ! j)) = (\<exists>x\<in>set (take (Suc p) r). P x)"
proof
  assume "\<exists>j\<le>p. P (r ! j)"
  then obtain j where j: "j \<le> p" "P (r ! j)" by blast
  then have "r ! j \<in> set (take (Suc p) r)"
    using assms by (auto simp add: in_set_conv_nth intro!: exI [of _ j])
  with j show "\<exists>x\<in>set (take (Suc p) r). P x" by blast
next
  assume "\<exists>x\<in>set (take (Suc p) r). P x"
  then obtain x where x: "x \<in> set (take (Suc p) r)" "P x" by blast
  then obtain j where "j < length (take (Suc p) r)" "take (Suc p) r ! j = x"
    by (auto simp add: in_set_conv_nth)
  with x assms have "j \<le> p \<and> P (r ! j)" by simp
  then show "\<exists>j\<le>p. P (r ! j)" by blast
qed

text \<open>
  After \<open>m\<close> passes of the second sort, every position from \<open>L - m\<close> on holds an entry
  with property \<open>P\<close> if any position up to it does.
\<close>

lemma bubbleSort_passes:
  assumes "length xs = L" and "m < L"
  shows "length (foldl (\<lambda>ys i. bubblePass (\<lambda>a b. P a) ys (L - i - 1)) xs [0..<m]) = L
         \<and> (\<forall>p. L - m \<le> p \<longrightarrow> p < L \<longrightarrow>
               (\<exists>j\<le>p. P (foldl (\<lambda>ys i. bubblePass (\<lambda>a b. P a) ys (L - i - 1)) xs [0..<m] ! j))
               \<longrightarrow> P (foldl (\<lambda>ys i. bubblePass (\<lambda>a b. P a) ys (L - i - 1)) xs [0..<m] ! p))"
  using assms
proof (induction m)
  case 0
  then show ?case by simp
next
  case (Suc m)
  let ?zs = "foldl (\<lambda>ys i. bubblePass (\<lambda>a b. P a) ys (L - i - 1)) xs [0..<m]"
  let ?n = "L - m - 1"
  let ?ws = "bubblePass (\<lambda>a b. P a) ?zs ?n"
  have len: "length ?zs = L"
    and good: "\<forall>p. L - m \<le> p \<longrightarrow> p < L \<longrightarrow> (\<exists>j\<le>p. P (?zs ! j)) \<longrightarrow> P (?zs ! p)"
    using Suc by simp_all
  have n: "?n < length ?zs"
    using Suc.prems len by simp
  have w: "foldl (\<lambda>ys i. bubblePass (\<lambda>a b. P a) ys (L - i - 1)) xs [0..<Suc m] = ?ws"
    by simp
  have wlen: "length ?ws = L"
    using bubblePass_mset [OF n] len by simp
  have same: "\<forall>j. ?n < j \<longrightarrow> j < L \<longrightarrow> ?ws ! j = ?zs ! j"
    and carry: "(\<exists>j\<le>?n. P (?zs ! j)) \<longrightarrow> P (?ws ! ?n)"
    using bubblePass_carry [OF n, of P] len by simp_all
  have ex: "(\<exists>j\<le>p. P (?ws ! j)) = (\<exists>j\<le>p. P (?zs ! j))" if "?n \<le> p" "p < L" for p
  proof -
    have "set (take (Suc p) ?ws) = set (take (Suc p) ?zs)"
      using that n by (intro bubblePass_take_set) simp_all
    then show ?thesis
      using that len wlen by (simp add: prefix_ex)
  qed
  have "(\<exists>j\<le>p. P (?ws ! j)) \<longrightarrow> P (?ws ! p)" if "L - Suc m \<le> p" "p < L" for p
  proof (cases "p = ?n")
    case True
    with carry ex [of p] that show ?thesis by simp
  next
    case False
    with that have "?n < p" "L - m \<le> p" by simp_all
    with good same ex [of p] that show ?thesis by simp
  qed
  with wlen show ?case
    unfolding w by blast
qed

lemma bubbleSort_missing_last:
  assumes "1 \<le> p" and "p < length xs"
  shows "(\<exists>j\<le>p. P (bubbleSort (\<lambda>a b. P a) xs ! j)) \<longrightarrow> P (bubbleSort (\<lambda>a b. P a) xs ! p)"
proof -
  have "length xs - 1 < length xs"
    using assms by simp
  from bubbleSort_passes [OF refl this, of P] assms show ?thesis
    by (simp add: bubbleSort_def)
qed

text \<open>So the entries without property \<open>P\<close> come first.\<close>

lemma bubbleSort_front:
  assumes "p < length (filter (\<lambda>x. \<not> P x) (bubbleSort (\<lambda>a b. P a) xs))"
  shows "\<not> P (bubbleSort (\<lambda>a b. P a) xs ! p)"
proof
  let ?r = "bubbleSort (\<lambda>a b. P a) xs"
  assume P: "P (?r ! p)"
  have len: "length ?r = length xs"
    using bubbleSort_mset [of "\<lambda>a b. P a" xs] by simp
  have "length (filter (\<lambda>x. \<not> P x) ?r) \<le> length ?r"
    by (rule length_filter_le)
  with assms have p: "p < length xs" using len by simp
  have "P (?r ! q)" if "p \<le> q" "q < length xs" for q
  proof (cases "q = p")
    case True
    with P show ?thesis by simp
  next
    case False
    with that have "1 \<le> q" by simp
    from bubbleSort_missing_last [OF this that(2), of P] that(1) P show ?thesis by blast
  qed
  then have tail: "\<And>q. p \<le> q \<Longrightarrow> q < length xs \<Longrightarrow> P (?r ! q)" .
  have "\<forall>x\<in>set (drop p ?r). P x"
  proof
    fix x
    assume "x \<in> set (drop p ?r)"
    then obtain j where j: "j < length (drop p ?r)" "drop p ?r ! j = x"
      by (meson in_set_conv_nth)
    from j(1) have q: "p + j < length xs"
      using len by simp
    with j(2) p len have "x = ?r ! (p + j)"
      by simp
    with tail [of "p + j"] q show "P x"
      by simp
  qed
  then have e: "filter (\<lambda>x. \<not> P x) (drop p ?r) = []"
    unfolding filter_empty_conv by blast
  have "filter (\<lambda>x. \<not> P x) ?r = filter (\<lambda>x. \<not> P x) (take p ?r @ drop p ?r)"
    by (simp only: append_take_drop_id)
  also have "\<dots> = filter (\<lambda>x. \<not> P x) (take p ?r)"
    by (simp only: filter_append e append_Nil2)
  finally have "length (filter (\<lambda>x. \<not> P x) ?r) \<le> length (take p ?r)"
    using length_filter_le [of "\<lambda>x. \<not> P x" "take p ?r"] by (simp only:)
  with assms show False by simp
qed

lemma count_by_index:
  "length (filter R bs) = length (filter (\<lambda>i. R (bs ! i)) [0..<length bs])"
proof -
  have "filter R (map ((!) bs) [0..<length bs])
          = map ((!) bs) (filter (R \<circ> (!) bs) [0..<length bs])"
    by (rule filter_map)
  then have "length (filter R bs) = length (filter (R \<circ> (!) bs) [0..<length bs])"
    by (simp add: map_nth)
  then show ?thesis
    by (simp add: comp_def)
qed

lemma countBats_fold:
  assumes "int (length (filter (\<lambda>b. healthState b = missingH) bs)) \<le> a" and "a \<le> 255"
  shows "foldl (\<lambda>numBats b. if healthState b = missingH then u8 (numBats - 1) else numBats) a bs
           = a - int (length (filter (\<lambda>b. healthState b = missingH) bs))"
  using assms
proof (induction bs arbitrary: a)
  case Nil
  then show ?case by simp
next
  case (Cons b bs)
  show ?case
  proof (cases "healthState b = missingH")
    case True
    with Cons.prems have a: "1 \<le> a" "a \<le> 255" by simp_all
    then have u: "u8 (a - 1) = a - 1" by (simp add: u8_def)
    from True Cons.prems have "int (length (filter (\<lambda>b. healthState b = missingH) bs)) \<le> a - 1"
      by simp
    from Cons.IH [OF this] a True show ?thesis
      by (simp add: u)
  next
    case False
    with Cons.prems Cons.IH [of a] show ?thesis by simp
  qed
qed

lemma countBats_present:
  assumes "NUM_BATS s \<le> 255"
  shows "countBats s = int (length (filter (\<lambda>b. healthState b \<noteq> missingH) (battery s)))"
proof -
  let ?missing = "filter (\<lambda>b. healthState b = missingH) (battery s)"
  have m: "length ?missing \<le> length (battery s)"
    by (rule length_filter_le)
  have u: "u8 (int (NUM_BATS s)) = int (NUM_BATS s)"
    using assms by (simp add: u8_def)
  have "countBats s = int (NUM_BATS s) - int (length ?missing)"
    unfolding countBats_def u using m assms
    by (intro countBats_fold) (simp_all add: NUM_BATS_def)
  moreover have "length (battery s)
                   = length ?missing + length (filter (\<lambda>b. healthState b \<noteq> missingH) (battery s))"
    using sum_length_filter_compl [of "\<lambda>b. healthState b = missingH" "battery s"] by simp
  ultimately show ?thesis
    by (simp add: NUM_BATS_def)
qed

lemma ranking_mset:
  "length (batteryFillStateSort s) = NUM_BATS s
   \<and> mset (batteryFillStateSort s) = mset (map (\<lambda>i. int i + 1) [0..<NUM_BATS s])"
  by (simp add: batteryFillStateSort_def Let_def bubbleSort_mset)

lemma ranking_present_count:
  "length (filter (\<lambda>x. healthState (batteryAt s (x - 1)) \<noteq> missingH) (batteryFillStateSort s))
     = length (filter (\<lambda>b. healthState b \<noteq> missingH) (battery s))"
proof -
  let ?Q = "\<lambda>x. healthState (batteryAt s (x - 1)) \<noteq> missingH"
  let ?r0 = "map (\<lambda>i. int i + 1) [0..<NUM_BATS s]"
  have "mset (filter ?Q (batteryFillStateSort s)) = mset (filter ?Q ?r0)"
    using ranking_mset [of s] by (simp only: mset_filter)
  then have "length (filter ?Q (batteryFillStateSort s)) = length (filter ?Q ?r0)"
    by (rule mset_eq_length)
  also have "\<dots> = length (filter (?Q \<circ> (\<lambda>i. int i + 1)) [0..<NUM_BATS s])"
    by (simp only: filter_map length_map)
  also have "\<dots> = length (filter (\<lambda>i. healthState (battery s ! i) \<noteq> missingH)
                             [0..<length (battery s)])"
    unfolding NUM_BATS_def
    by (rule arg_cong [where f = length], rule filter_cong) (simp_all add: batteryAt_def)
  also have "\<dots> = length (filter (\<lambda>b. healthState b \<noteq> missingH) (battery s))"
    by (rule count_by_index [symmetric])
  finally show ?thesis .
qed

text \<open>The first \<open>numBats\<close> entries of the ranking are batteries that are not missing.\<close>

lemma ranked_present:
  assumes "NUM_BATS s \<le> 255" and "x \<in> set (ranked (batteryFillStateSort s) (countBats s))"
  shows "healthState (batteryAt s (x - 1)) \<noteq> missingH"
proof -
  let ?P = "\<lambda>x. healthState (batteryAt s (x - 1)) = missingH"
  let ?r = "batteryFillStateSort s"
  obtain r1 where r: "?r = bubbleSort (\<lambda>a b. ?P a) r1"
    by (simp add: batteryFillStateSort_def Let_def)
  have c: "nat (countBats s) = length (filter (\<lambda>x. \<not> ?P x) ?r)"
    using countBats_present [OF assms(1)] ranking_present_count [of s] by simp
  from assms(2) obtain p where p: "p < length (take (nat (countBats s)) ?r)"
    "take (nat (countBats s)) ?r ! p = x"
    unfolding ranked_def by (meson in_set_conv_nth)
  then have "p < length (filter (\<lambda>x. \<not> ?P x) ?r)" "x = ?r ! p"
    using c by simp_all
  with bubbleSort_front [of p ?P r1] r show ?thesis
    by simp
qed

lemma trackBatteries_countBats:
  "countBats (trackBatteries cfg m s) = countBats s"
proof -
  have h: "map (\<lambda>b. healthState b = missingH) (battery (trackBatteries cfg m s))
          = map (\<lambda>b. healthState b = missingH) (battery s)"
    by (rule nth_equalityI)
      (simp_all add: trackBatteries_def NUM_BATS_def trackBattery_missing)
  have f: "foldl (\<lambda>numBats b. if healthState b = missingH then u8 (numBats - 1) else numBats) a bs
                   = foldl (\<lambda>numBats h. if h then u8 (numBats - 1) else numBats) a
                       (map (\<lambda>b. healthState b = missingH) bs)" for a bs
    by (induction bs arbitrary: a) simp_all
  have n: "NUM_BATS (trackBatteries cfg m s) = NUM_BATS s"
    by (simp add: trackBatteries_def NUM_BATS_def)
  show ?thesis
    unfolding countBats_def n f h ..
qed

text \<open>The entries of the ranking are battery numbers.\<close>

lemma ranking_numbers:
  assumes "x \<in> set (batteryFillStateSort s)"
  shows "1 \<le> x \<and> x \<le> int (NUM_BATS s)"
proof -
  have "set (batteryFillStateSort s) = set (map (\<lambda>i. int i + 1) [0..<NUM_BATS s])"
    using ranking_mset [of s] by (metis set_mset_mset)
  with assms show ?thesis
    by auto
qed

lemma ranked_subset: "set (ranked ranking numBats) \<subseteq> set ranking"
  by (simp add: ranked_def set_take_subset)

text \<open>The number of batteries that are present, as the pass counts it.\<close>

lemma removeMissing_countBats:
  assumes "NUM_BATS s \<le> 255"
  shows "countBats (removeMissing cfg s)
           = int (length (filter (\<lambda>b. healthState b \<noteq> missingH) (battery s)))"
proof -
  let ?t = "removeMissing cfg s"
  have l: "length (battery ?t) = length (battery s)"
    using removeMissing_fold [of cfg s "[0..<NUM_BATS s]"] by (simp add: removeMissing_def)
  have h: "healthState (battery ?t ! j) = healthState (battery s ! j)" for j
    using removeMissing_fold [of cfg s "[0..<NUM_BATS s]" j] by (simp add: removeMissing_def)
  have "NUM_BATS ?t \<le> 255"
    using assms l by (simp add: NUM_BATS_def)
  then have "countBats ?t = int (length (filter (\<lambda>b. healthState b \<noteq> missingH) (battery ?t)))"
    by (rule countBats_present)
  also have "length (filter (\<lambda>b. healthState b \<noteq> missingH) (battery ?t))
               = length (filter (\<lambda>i. healthState (battery ?t ! i) \<noteq> missingH)
                           [0..<length (battery ?t)])"
    by (rule count_by_index)
  also have "\<dots> = length (filter (\<lambda>i. healthState (battery s ! i) \<noteq> missingH)
                           [0..<length (battery s)])"
    by (simp only: l h)
  also have "\<dots> = length (filter (\<lambda>b. healthState b \<noteq> missingH) (battery s))"
    by (rule count_by_index [symmetric])
  finally show ?thesis .
qed

section \<open>The panel check at night\<close>

text \<open>
  The panel check passes the battery number \<open>index\<close>, which counts from 1, to
  \<^verbatim>\<open>battery[index]\<close> and \<^verbatim>\<open>getBatteryVoltage(index)\<close>, which count from 0. With
  the three batteries present at 12.6 V and the panel at 12.0 V it reads the record behind
  the battery array: the charger is off when that record is marked missing and stays on
  when it is not.
\<close>

lemma panel_check_behind_array:
  "chargerOff (monitorTick exampleConfig fullNightMeasurements (fullBank missingBattery))
   \<and> decisionStatus (monitorTick exampleConfig fullNightMeasurements (fullBank missingBattery))
       = 0x2010
   \<and> \<not> chargerOff (monitorTick exampleConfig fullNightMeasurements (fullBank (batteryAtSoC 0)))
   \<and> decisionStatus (monitorTick exampleConfig fullNightMeasurements (fullBank (batteryAtSoC 0)))
       = 0x2111"
  by code_simp

text \<open>
  Claim C7, as amended. On a pass over at most 255 batteries in which the last battery of
  the array is missing and every battery that is not missing has a voltage of at least the
  panel voltage plus 128, the charger is off at the end of the pass, bit 0x100 (bit 8) of
  the decision status is clear, and no battery is under charge unless exactly one battery
  is present.
\<close>

theorem night_charger_off:
  assumes "NUM_BATS s \<le> 255"
    and "NUM_BATS s = 0 \<or> healthState (battery s ! (NUM_BATS s - 1)) = missingH"
    and "\<forall>i<NUM_BATS s. healthState (battery s ! i) \<noteq> missingH
           \<longrightarrow> getPanelVoltage m 0 + 128 \<le> getBatteryVoltage m (int i)"
  shows "chargerOff (monitorTick cfg m s)
         \<and> \<not> bit (decisionStatus (monitorTick cfg m s)) 8
         \<and> (length (filter (\<lambda>b. healthState b \<noteq> missingH) (battery s)) \<noteq> 1
              \<longrightarrow> batteryUnderCharge (monitorTick cfg m s) = 0)"
proof -
  let ?s1 = "removeMissing cfg s"
  let ?s2 = "trackBatteries cfg m ?s1"
  let ?n = "NUM_BATS s"
  have n: "NUM_BATS ?s2 = ?n"
    using removeMissing_fold [of cfg s "[0..<NUM_BATS s]"]
    by (simp add: trackBatteries_def removeMissing_def NUM_BATS_def)
  have c: "countBats ?s1 = countBats ?s2"
    by (simp add: trackBatteries_countBats)
  have m: "(healthState (batteryAt ?s2 i) = missingH) = (healthState (batteryAt s i) = missingH)"
    for i
    by (simp add: trackBatteries_missing removeMissing_health)
  have "getPanelVoltage m 0 + 128 \<le> getBatteryVoltage m x"
    if x: "x \<in> set (ranked (batteryFillStateSort ?s2) (countBats ?s1))"
      and h: "healthState (batteryAt ?s2 x) \<noteq> missingH" for x
  proof -
    have r: "1 \<le> x \<and> x \<le> int ?n"
      using x ranked_subset ranking_numbers [of x ?s2] n by auto
    have "healthState (batteryAt ?s2 (x - 1)) \<noteq> missingH"
      using x n assms(1) unfolding c by (intro ranked_present) simp_all
    then have p: "healthState (batteryAt s (x - 1)) \<noteq> missingH"
      by (simp add: m)
    have "x \<noteq> int ?n"
    proof
      assume e: "x = int ?n"
      with r have "0 < ?n" by simp
      with e have "batteryAt s (x - 1) = battery s ! (?n - 1)"
        by (simp add: batteryAt_def NUM_BATS_def nat_diff_distrib')
      with p assms(2) \<open>0 < ?n\<close> show False by simp
    qed
    with r have i: "nat x < ?n" "int (nat x) = x" "0 \<le> x" "x < int ?n"
      by linarith+
    from h have "healthState (batteryAt s x) \<noteq> missingH"
      by (simp add: m)
    with i have "healthState (battery s ! nat x) \<noteq> missingH"
      by (simp add: batteryAt_def NUM_BATS_def)
    with assms(3) i(1) have "getPanelVoltage m 0 + 128 \<le> getBatteryVoltage m (int (nat x))"
      by blast
    with i(2) show ?thesis by simp
  qed
  then have "\<forall>x\<in>set (ranked (batteryFillStateSort ?s2) (countBats ?s1)).
             healthState (batteryAt ?s2 x) \<noteq> missingH
             \<longrightarrow> getPanelVoltage m 0 + 128 \<le> getBatteryVoltage m x"
    by blast
  then have "chargerOff (decide cfg m (countBats ?s1) ?s2)
         \<and> \<not> bit (decisionStatus (decide cfg m (countBats ?s1) ?s2)) 8
         \<and> (countBats ?s1 \<noteq> 1 \<longrightarrow> batteryUnderCharge (decide cfg m (countBats ?s1) ?s2) = 0)"
    by (rule decide_night)
  then show ?thesis
    unfolding monitorTick_decide removeMissing_countBats [OF assms(1)] by simp
qed

theorem night_charger_off_witness:
  "NUM_BATS twoBatteryBank \<le> 255
   \<and> healthState (battery twoBatteryBank ! (NUM_BATS twoBatteryBank - 1)) = missingH
   \<and> getPanelVoltage nightMeasurements 0 + 128 \<le> getBatteryVoltage nightMeasurements 0
   \<and> getPanelVoltage nightMeasurements 0 + 128 \<le> getBatteryVoltage nightMeasurements 1
   \<and> chargerOff (monitorTick exampleConfig nightMeasurements twoBatteryBank)
   \<and> \<not> bit (decisionStatus (monitorTick exampleConfig nightMeasurements twoBatteryBank)) 8
   \<and> length (filter (\<lambda>b. healthState b \<noteq> missingH) (battery twoBatteryBank)) = 2
   \<and> batteryUnderCharge (monitorTick exampleConfig nightMeasurements twoBatteryBank) = 0"
proof -
  have 1: "NUM_BATS twoBatteryBank \<le> 255"
    by code_simp
  have l: "healthState (battery twoBatteryBank ! (NUM_BATS twoBatteryBank - 1)) = missingH"
    by code_simp
  then have 2: "NUM_BATS twoBatteryBank = 0
                \<or> healthState (battery twoBatteryBank ! (NUM_BATS twoBatteryBank - 1)) = missingH"
    by simp
  have 3: "\<forall>i<NUM_BATS twoBatteryBank. healthState (battery twoBatteryBank ! i) \<noteq> missingH
           \<longrightarrow> getPanelVoltage nightMeasurements 0 + 128
                 \<le> getBatteryVoltage nightMeasurements (int i)"
    by (simp add: nightMeasurements_def)
  have v: "getPanelVoltage nightMeasurements 0 + 128 \<le> getBatteryVoltage nightMeasurements 0
           \<and> getPanelVoltage nightMeasurements 0 + 128 \<le> getBatteryVoltage nightMeasurements 1"
    by (simp add: nightMeasurements_def)
  have n: "length (filter (\<lambda>b. healthState b \<noteq> missingH) (battery twoBatteryBank)) = 2"
    by code_simp
  show ?thesis
    using 1 l v n night_charger_off [OF 1 2 3, of exampleConfig] by simp
qed

text \<open>
  Claim C7 as stated fails in three ways. At night with batteries 1 and 2 present the
  charger is off and deallocated and the decision status is 0x2020, without 0x100. With the
  three batteries present at 12.6 V, the panel at 12.0 V and a record behind the array
  that is not marked missing, the charger stays on and goes to battery 3. With battery 1
  alone at 12.6 V the charger is off and battery 1 is under charge.
\<close>

theorem night_scenario_diverges:
  "chargerOff (monitorTick exampleConfig nightMeasurements twoBatteryBank)
   \<and> batteryUnderCharge (monitorTick exampleConfig nightMeasurements twoBatteryBank) = 0
   \<and> decisionStatus (monitorTick exampleConfig nightMeasurements twoBatteryBank) = 0x2020
   \<and> (0x2020 :: int) AND 0x100 = 0
   \<and> getPanelVoltage fullNightMeasurements 0 + 128 \<le> getBatteryVoltage fullNightMeasurements 0
   \<and> getPanelVoltage fullNightMeasurements 0 + 128 \<le> getBatteryVoltage fullNightMeasurements 1
   \<and> getPanelVoltage fullNightMeasurements 0 + 128 \<le> getBatteryVoltage fullNightMeasurements 2
   \<and> \<not> chargerOff (monitorTick exampleConfig fullNightMeasurements (fullBank (batteryAtSoC 0)))
   \<and> batteryUnderCharge (monitorTick exampleConfig fullNightMeasurements
                           (fullBank (batteryAtSoC 0))) = 3
   \<and> getPanelVoltage nightMeasurements 0 + 128 \<le> getBatteryVoltage nightMeasurements 0
   \<and> chargerOff (monitorTick exampleConfig nightMeasurements oneBatteryBank)
   \<and> batteryUnderCharge (monitorTick exampleConfig nightMeasurements oneBatteryBank) = 1"
  by code_simp

section \<open>No missing battery is allocated\<close>

lemma notMissing_cong:
  assumes "battery s' = battery s" and "outside s' = outside s"
  shows "notMissing s' = notMissing s"
proof -
  have "batteryAt s' = batteryAt s"
    using assms by (rule batteryAt_cong)
  with assms(1) show ?thesis
    by (simp add: notMissing_def NUM_BATS_def fun_eq_iff)
qed

lemma notMissing_update:
  "notMissing (s\<lparr>chargerOff := c\<rparr>) = notMissing s"
  "notMissing (s\<lparr>decisionStatus := d\<rparr>) = notMissing s"
  "notMissing (s\<lparr>batteryUnderCharge := u\<rparr>) = notMissing s"
  "notMissing (s\<lparr>batteryUnderLoad := l\<rparr>) = notMissing s"
  "notMissing (s\<lparr>chargingPhase := p\<rparr>) = notMissing s"
  "notMissing (s\<lparr>calls := k\<rparr>) = notMissing s"
  by (rule notMissing_cong, simp, simp)+

lemma notMissing_0: "notMissing s 0"
  by (simp add: notMissing_def)

lemma find_Some_set: "find P xs = Some x \<Longrightarrow> x \<in> set xs"
  by (auto simp add: find_Some_iff)

lemma upwards_set: "set (upwards ranking numBats) = set (ranked ranking numBats)"
  by (simp add: upwards_def)

lemma lowest_ranked:
  assumes "1 \<le> numBats" and "numBats \<le> int (length ranking)"
  shows "ranking ! nat (numBats - 1) \<in> set (ranked ranking numBats)"
proof -
  have "nat (numBats - 1) < length (take (nat numBats) ranking)"
    using assms by simp
  then have "take (nat numBats) ranking ! nat (numBats - 1) \<in> set (take (nat numBats) ranking)"
    by (rule nth_mem)
  then show ?thesis
    using assms by (simp add: ranked_def)
qed

lemma chargerReleaseLow_present:
  assumes "allocationPresent ranking numBats s"
  shows "allocationPresent ranking numBats (chargerReleaseLow ranking numBats s)"
  using assms
  by (simp add: allocationPresent_def chargerReleaseLow_def Let_def notMissing_0 notMissing_update)

lemma chargerToCritical_present:
  assumes "allocationPresent ranking numBats s"
    and "1 \<le> numBats" and "numBats \<le> int (length ranking)"
  shows "allocationPresent ranking numBats (chargerToCritical ranking numBats s)"
  using assms lowest_ranked [of numBats ranking]
  by (simp add: allocationPresent_def chargerToCritical_def Let_def notMissing_0 notMissing_update)

lemma chargerToWeak_present:
  assumes "allocationPresent ranking numBats s"
  shows "allocationPresent ranking numBats (chargerToWeak ranking numBats s)"
  using assms
  by (auto simp add: allocationPresent_def chargerToWeak_def Let_def notMissing_0 notMissing_update
        upwards_set split: option.splits dest!: find_Some_set)

lemma chargerToLowestIsolatable_present:
  assumes "allocationPresent ranking numBats s"
  shows "allocationPresent ranking numBats (chargerToLowestIsolatable cfg ranking numBats longest s)"
  using assms
  by (auto simp add: allocationPresent_def chargerToLowestIsolatable_def Let_def notMissing_0 notMissing_update
        upwards_set split: option.splits dest!: find_Some_set)

lemma chargerToLowest_present:
  assumes "allocationPresent ranking numBats s"
  shows "allocationPresent ranking numBats (chargerToLowest ranking numBats s)"
  using assms
  by (auto simp add: allocationPresent_def chargerToLowest_def Let_def notMissing_0 notMissing_update
        upwards_set split: option.splits dest!: find_Some_set)

lemma chargerToLower_present:
  assumes "allocationPresent ranking numBats s"
  shows "allocationPresent ranking numBats (chargerToLower ranking numBats s)"
  using assms
  by (auto simp add: allocationPresent_def chargerToLower_def Let_def notMissing_0 notMissing_update
        upwards_set split: option.splits dest!: find_Some_set)

lemma loadReleaseCharging_present:
  assumes "allocationPresent ranking numBats s"
  shows "allocationPresent ranking numBats (loadReleaseCharging cfg s)"
  using assms
  by (simp add: allocationPresent_def loadReleaseCharging_def Let_def notMissing_0 notMissing_update)

lemma loadReleaseWeak_present:
  assumes "allocationPresent ranking numBats s"
  shows "allocationPresent ranking numBats (loadReleaseWeak s)"
  using assms
  by (simp add: allocationPresent_def loadReleaseWeak_def Let_def notMissing_0 notMissing_update)

lemma loadReleaseLow_present:
  assumes "allocationPresent ranking numBats s"
  shows "allocationPresent ranking numBats (loadReleaseLow s)"
  using assms
  by (simp add: allocationPresent_def loadReleaseLow_def Let_def notMissing_0 notMissing_update)

lemma loadToHighestIsolatable_present:
  assumes "allocationPresent ranking numBats s"
  shows "allocationPresent ranking numBats (loadToHighestIsolatable cfg ranking numBats longest s)"
  using assms
  by (auto simp add: allocationPresent_def loadToHighestIsolatable_def Let_def notMissing_0 notMissing_update
        upwards_set split: option.splits dest!: find_Some_set)

lemma loadToHighest_present:
  assumes "allocationPresent ranking numBats s"
  shows "allocationPresent ranking numBats (loadToHighest cfg ranking numBats s)"
  using assms
  by (auto simp add: allocationPresent_def loadToHighest_def Let_def notMissing_0 notMissing_update
        upwards_set split: option.splits dest!: find_Some_set)

lemma loadToNotWeak_present:
  assumes "allocationPresent ranking numBats s"
  shows "allocationPresent ranking numBats (loadToNotWeak ranking numBats s)"
  using assms
  by (auto simp add: allocationPresent_def loadToNotWeak_def Let_def notMissing_0 notMissing_update
        upwards_set split: option.splits dest!: find_Some_set)

lemma reconsiderLoad_present:
  assumes "allocationPresent ranking numBats s"
  shows "allocationPresent ranking numBats (reconsiderLoad cfg ranking numBats s)"
  using assms
  by (auto simp add: allocationPresent_def reconsiderLoad_def Let_def notMissing_0 notMissing_update
        upwards_set split: option.splits dest!: find_Some_set)

lemma loadToCharging_present:
  assumes "allocationPresent ranking numBats s"
  shows "allocationPresent ranking numBats (loadToCharging s)"
  using assms
  by (simp add: allocationPresent_def loadToCharging_def Let_def notMissing_0 notMissing_update)

lemma allocateCharger_present:
  assumes "allocationPresent ranking numBats s"
    and "1 \<le> numBats" and "numBats \<le> int (length ranking)"
  shows "allocationPresent ranking numBats (allocateCharger cfg ranking numBats longest s)"
  unfolding allocateCharger_def Let_def
  by (intro chargerToLower_present chargerToLowest_present chargerToLowestIsolatable_present
        chargerToWeak_present chargerToCritical_present chargerReleaseLow_present assms)

lemma allocateLoad_present:
  assumes "allocationPresent ranking numBats s"
  shows "allocationPresent ranking numBats (allocateLoad cfg ranking numBats longest s)"
  unfolding allocateLoad_def Let_def
  by (intro loadToNotWeak_present loadToHighest_present loadToHighestIsolatable_present
        loadReleaseLow_present loadReleaseWeak_present loadReleaseCharging_present assms)

lemma severalBatteries_present:
  assumes "allocationPresent ranking numBats s"
    and "1 \<le> numBats" and "numBats \<le> int (length ranking)"
  shows "allocationPresent ranking numBats (severalBatteries cfg ranking numBats longest s)"
proof -
  let ?s0 = "s\<lparr>decisionStatus := decisionStatus s OR 0x2000\<rparr>"
  let ?s1 = "if \<not> chargerOff ?s0 then allocateCharger cfg ranking numBats longest ?s0 else ?s0"
  have "allocationPresent ranking numBats ?s0"
    using assms(1) by (simp add: allocationPresent_def notMissing_update)
  then have "allocationPresent ranking numBats ?s1"
    using allocateCharger_present [OF _ assms(2,3)] by simp
  then have "allocationPresent ranking numBats
               (loadToCharging (reconsiderLoad cfg ranking numBats
                  (allocateLoad cfg ranking numBats longest ?s1)))"
    by (intro loadToCharging_present reconsiderLoad_present allocateLoad_present)
  then show ?thesis
    by (simp add: severalBatteries_def Let_def)
qed

lemma oneBattery_present:
  assumes "allocationPresent ranking 1 s" and "1 \<le> int (length ranking)"
  shows "allocationPresent ranking 1 (oneBattery ranking s)"
  using assms lowest_ranked [of 1 ranking]
  by (simp add: allocationPresent_def oneBattery_def Let_def notMissing_0 notMissing_update)

lemma preliminary_present:
  assumes "allocationPresent ranking numBats s"
  shows "allocationPresent ranking numBats (s\<lparr>decisionStatus := 0\<rparr>)"
    and "allocationPresent ranking numBats (restartBulk cfg ranking' numBats' s)"
    and "allocationPresent ranking numBats (releaseCharged s)"
    and "allocationPresent ranking numBats (panelCheck m ranking' numBats' s)"
    and "allocationPresent ranking numBats (floatCheck ranking' numBats' s)"
proof -
  show "allocationPresent ranking numBats (s\<lparr>decisionStatus := 0\<rparr>)"
    using assms by (simp add: allocationPresent_def notMissing_update)
  have "notMissing (restartBulk cfg ranking' numBats' s) = notMissing s"
    by (rule notMissing_cong) (simp_all add: restartBulk_frame)
  then show "allocationPresent ranking numBats (restartBulk cfg ranking' numBats' s)"
    using assms by (simp add: allocationPresent_def restartBulk_frame)
  show "allocationPresent ranking numBats (releaseCharged s)"
    using assms
    by (simp add: allocationPresent_def releaseCharged_def Let_def notMissing_0
          notMissing_update)
  show "allocationPresent ranking numBats (panelCheck m ranking' numBats' s)"
    using assms
    by (simp add: allocationPresent_def panelCheck_def Let_def notMissing_0 notMissing_update
          split: option.splits)
  show "allocationPresent ranking numBats (floatCheck ranking' numBats' s)"
    using assms
    by (simp add: allocationPresent_def floatCheck_def Let_def notMissing_0 notMissing_update
          split: option.splits)
qed

lemma countBats_le:
  assumes "NUM_BATS s \<le> 255"
  shows "0 \<le> countBats s \<and> countBats s \<le> int (NUM_BATS s)"
  using countBats_present [OF assms]
    length_filter_le [of "\<lambda>b. healthState b \<noteq> missingH" "battery s"]
  by (simp add: NUM_BATS_def)

text \<open>The decisions allocate no missing battery.\<close>

lemma decide_present:
  assumes "NUM_BATS s \<le> 255" and "numBats = countBats s"
    and "notMissing s (batteryUnderLoad s)" and "notMissing s (batteryUnderCharge s)"
  shows "allocationPresent (batteryFillStateSort s) numBats (decide cfg m numBats s)"
proof -
  let ?r = "batteryFillStateSort s"
  let ?s3 = "floatCheck ?r numBats (panelCheck m ?r numBats
               (releaseCharged (restartBulk cfg ?r numBats (s\<lparr>decisionStatus := 0\<rparr>))))"
  have "\<forall>x\<in>set (ranked ?r numBats). notMissing s x"
    using ranked_present [OF assms(1)] assms(2) by (simp add: notMissing_def)
  with assms(3,4) have "allocationPresent ?r numBats s"
    by (simp add: allocationPresent_def)
  then have p: "allocationPresent ?r numBats ?s3"
    by (intro preliminary_present)
  have len: "numBats \<le> int (length ?r)"
    using countBats_le [OF assms(1)] assms(2) ranking_mset [of s] by simp
  have d1: "numBats = 1 \<Longrightarrow> decide cfg m numBats s = oneBattery ?r ?s3"
    by (simp add: decide_def Let_def)
  have d2: "numBats > 1 \<Longrightarrow> decide cfg m numBats s
              = severalBatteries cfg ?r numBats (longestBattery s numBats) ?s3"
    by (simp add: decide_def Let_def)
  have d3: "numBats < 1 \<Longrightarrow> decide cfg m numBats s = ?s3"
    by (simp add: decide_def Let_def)
  consider "numBats = 1" | "numBats > 1" | "numBats < 1"
    by linarith
  then show ?thesis
  proof cases
    case 1
    with p len have "allocationPresent ?r 1 (oneBattery ?r ?s3)"
      by (intro oneBattery_present) simp_all
    with 1 show ?thesis
      unfolding d1 [OF 1] by simp
  next
    case 2
    with p len show ?thesis
      unfolding d2 [OF 2] by (intro severalBatteries_present) simp_all
  next
    case 3
    with p show ?thesis
      unfolding d3 [OF 3] by simp
  qed
qed

lemma decide_frame:
  "battery (decide cfg m numBats s) = battery s \<and> outside (decide cfg m numBats s) = outside s"
proof -
  let ?r = "batteryFillStateSort s"
  let ?s3 = "floatCheck ?r numBats (panelCheck m ?r numBats
               (releaseCharged (restartBulk cfg ?r numBats (s\<lparr>decisionStatus := 0\<rparr>))))"
  have p: "battery (panelCheck m ?r numBats x) = battery x
           \<and> outside (panelCheck m ?r numBats x) = outside x" for x
    by (simp add: panelCheck_def Let_def split: option.splits)
  have s3: "battery ?s3 = battery s \<and> outside ?s3 = outside s"
    by (simp add: floatCheck_frame p releaseCharged_frame restartBulk_frame)
  have d1: "numBats = 1 \<Longrightarrow> decide cfg m numBats s = oneBattery ?r ?s3"
    by (simp add: decide_def Let_def)
  have d2: "numBats > 1 \<Longrightarrow> decide cfg m numBats s
              = severalBatteries cfg ?r numBats (longestBattery s numBats) ?s3"
    by (simp add: decide_def Let_def)
  have d3: "numBats < 1 \<Longrightarrow> decide cfg m numBats s = ?s3"
    by (simp add: decide_def Let_def)
  consider "numBats = 1" | "numBats > 1" | "numBats < 1"
    by linarith
  then show ?thesis
  proof cases
    case 1
    from s3 show ?thesis
      unfolding d1 [OF 1] by (simp add: oneBattery_frame)
  next
    case 2
    from s3 show ?thesis
      unfolding d2 [OF 2] by (simp add: severalBatteries_frame)
  next
    case 3
    from s3 show ?thesis
      unfolding d3 [OF 3] by simp
  qed
qed

text \<open>After the first loop of a pass no missing battery is under load or charge.\<close>

lemma removeMissing_fold_alloc:
  "(batteryUnderLoad (foldl (removeMissingStep cfg) s is) = batteryUnderLoad s
      \<or> batteryUnderLoad (foldl (removeMissingStep cfg) s is) = 0)
   \<and> (batteryUnderCharge (foldl (removeMissingStep cfg) s is) = batteryUnderCharge s
      \<or> batteryUnderCharge (foldl (removeMissingStep cfg) s is) = 0)
   \<and> (\<forall>i\<in>set is. healthState (battery s ! i) = missingH
         \<longrightarrow> batteryUnderLoad (foldl (removeMissingStep cfg) s is) \<noteq> int i + 1
             \<and> batteryUnderCharge (foldl (removeMissingStep cfg) s is) \<noteq> int i + 1)"
proof (induction "is" arbitrary: s)
  case Nil
  then show ?case by simp
next
  case (Cons i "is")
  let ?s1 = "removeMissingStep cfg s i"
  let ?t = "foldl (removeMissingStep cfg) ?s1 is"
  have h: "healthState (battery ?s1 ! j) = healthState (battery s ! j)" for j
    by (simp add: removeMissingStep_frame)
  have step: "(batteryUnderLoad ?s1 = batteryUnderLoad s \<or> batteryUnderLoad ?s1 = 0)
              \<and> (batteryUnderCharge ?s1 = batteryUnderCharge s \<or> batteryUnderCharge ?s1 = 0)
              \<and> (healthState (battery s ! i) = missingH
                    \<longrightarrow> batteryUnderLoad ?s1 \<noteq> int i + 1
                        \<and> batteryUnderCharge ?s1 \<noteq> int i + 1)"
    by (simp add: removeMissingStep_def Let_def setBatterySoC_frame)
  from Cons.IH [of ?s1] have ih:
    "batteryUnderLoad ?t = batteryUnderLoad ?s1 \<or> batteryUnderLoad ?t = 0"
    "batteryUnderCharge ?t = batteryUnderCharge ?s1 \<or> batteryUnderCharge ?t = 0"
    "\<forall>j\<in>set is. healthState (battery s ! j) = missingH
         \<longrightarrow> batteryUnderLoad ?t \<noteq> int j + 1 \<and> batteryUnderCharge ?t \<noteq> int j + 1"
    by (simp_all add: h)
  have "healthState (battery s ! i) = missingH
          \<longrightarrow> batteryUnderLoad ?t \<noteq> int i + 1 \<and> batteryUnderCharge ?t \<noteq> int i + 1"
    using step ih(1,2) by auto
  with step ih show ?case
    by auto
qed

lemma removeMissing_present:
  "notMissing (removeMissing cfg s) (batteryUnderLoad (removeMissing cfg s))
   \<and> notMissing (removeMissing cfg s) (batteryUnderCharge (removeMissing cfg s))"
proof -
  let ?t = "removeMissing cfg s"
  have n: "NUM_BATS ?t = NUM_BATS s"
    using removeMissing_fold [of cfg s "[0..<NUM_BATS s]"]
    by (simp add: removeMissing_def NUM_BATS_def)
  have a: "\<forall>i<NUM_BATS s. healthState (battery s ! i) = missingH
         \<longrightarrow> batteryUnderLoad ?t \<noteq> int i + 1 \<and> batteryUnderCharge ?t \<noteq> int i + 1"
    using removeMissing_fold_alloc [of cfg s "[0..<NUM_BATS s]"]
    by (simp add: removeMissing_def)
  have "notMissing ?t j" if "\<forall>i<NUM_BATS s. healthState (battery s ! i) = missingH
         \<longrightarrow> j \<noteq> int i + 1" for j
  proof (cases "1 \<le> j \<and> j \<le> int (NUM_BATS s)")
    case True
    then have i: "nat (j - 1) < NUM_BATS s" "j = int (nat (j - 1)) + 1"
      by linarith+
    with that have "healthState (battery s ! nat (j - 1)) \<noteq> missingH"
      by blast
    moreover have "batteryAt s (j - 1) = battery s ! nat (j - 1)"
      using True by (simp add: batteryAt_def NUM_BATS_def)
    ultimately show ?thesis
      by (simp add: notMissing_def removeMissing_health)
  next
    case False
    then show ?thesis
      by (auto simp add: notMissing_def n)
  qed
  with a show ?thesis
    by blast
qed

lemma trackBatteries_notMissing:
  "notMissing (trackBatteries cfg m s) = notMissing s"
  by (rule ext)
    (simp add: notMissing_def trackBatteries_missing, simp add: trackBatteries_def NUM_BATS_def)

text \<open>At the end of a pass the batteries under load and under charge are not missing.\<close>

lemma monitorTick_present:
  assumes "NUM_BATS s \<le> 255" and "i < NUM_BATS (monitorTick cfg m s)"
    and "batteryUnderLoad (monitorTick cfg m s) = int i + 1
         \<or> batteryUnderCharge (monitorTick cfg m s) = int i + 1"
  shows "healthState (battery (monitorTick cfg m s) ! i) \<noteq> missingH"
proof -
  let ?s1 = "removeMissing cfg s"
  let ?s2 = "trackBatteries cfg m ?s1"
  let ?d = "decide cfg m (countBats ?s1) ?s2"
  have n: "NUM_BATS ?s2 \<le> 255"
    using assms(1) removeMissing_fold [of cfg s "[0..<NUM_BATS s]"]
    by (simp add: trackBatteries_def removeMissing_def NUM_BATS_def)
  have c: "countBats ?s1 = countBats ?s2"
    by (simp add: trackBatteries_countBats)
  have "notMissing ?s2 (batteryUnderLoad ?s2) \<and> notMissing ?s2 (batteryUnderCharge ?s2)"
    using removeMissing_present [of cfg s]
    by (simp add: trackBatteries_notMissing, simp add: trackBatteries_def)
  then have "allocationPresent (batteryFillStateSort ?s2) (countBats ?s1) ?d"
    using n c by (intro decide_present) simp_all
  moreover have "notMissing ?d = notMissing ?s2"
    by (rule notMissing_cong) (simp_all add: decide_frame)
  ultimately have p: "notMissing ?d (batteryUnderLoad ?d) \<and> notMissing ?d (batteryUnderCharge ?d)"
    by (simp add: allocationPresent_def)
  have i: "i < NUM_BATS ?d"
    using assms(2) by (rule monitorTick_battery(1))
  have b: "battery (monitorTick cfg m s) ! i
             = idleReset cfg m (int i)
                 (updateOpState cfg m (batteryUnderLoad ?d) (batteryUnderCharge ?d) (int i)
                    (battery ?d ! i))"
    using assms(2) by (rule monitorTick_battery(2))
  have "notMissing ?d (int i + 1)"
    using p assms(3) by (auto simp add: monitorTick_decide)
  with i have "healthState (battery ?d ! i) \<noteq> missingH"
    by (simp add: notMissing_def batteryAt_def NUM_BATS_def)
  then show ?thesis
    by (simp add: b idleReset_frame updateOpState_health)
qed

section \<open>The allocation stays within the battery numbers\<close>

lemma batteryNumber_cong:
  assumes "battery s' = battery s"
  shows "batteryNumber s' = batteryNumber s"
  using assms by (simp add: batteryNumber_def NUM_BATS_def fun_eq_iff)

lemma batteryNumber_update:
  "batteryNumber (s\<lparr>chargerOff := c\<rparr>) = batteryNumber s"
  "batteryNumber (s\<lparr>decisionStatus := d\<rparr>) = batteryNumber s"
  "batteryNumber (s\<lparr>batteryUnderCharge := u\<rparr>) = batteryNumber s"
  "batteryNumber (s\<lparr>batteryUnderLoad := l\<rparr>) = batteryNumber s"
  "batteryNumber (s\<lparr>chargingPhase := p\<rparr>) = batteryNumber s"
  "batteryNumber (s\<lparr>calls := k\<rparr>) = batteryNumber s"
  by (simp_all add: batteryNumber_def NUM_BATS_def fun_eq_iff)

lemma batteryNumber_0: "batteryNumber s 0"
  by (simp add: batteryNumber_def)

lemma chargerReleaseLow_numbered:
  assumes "allocationNumbered ranking numBats s"
  shows "allocationNumbered ranking numBats (chargerReleaseLow ranking numBats s)"
  using assms
  by (simp add: allocationNumbered_def chargerReleaseLow_def Let_def batteryNumber_0 batteryNumber_update)

lemma chargerToCritical_numbered:
  assumes "allocationNumbered ranking numBats s"
    and "1 \<le> numBats" and "numBats \<le> int (length ranking)"
  shows "allocationNumbered ranking numBats (chargerToCritical ranking numBats s)"
  using assms lowest_ranked [of numBats ranking]
  by (simp add: allocationNumbered_def chargerToCritical_def Let_def batteryNumber_0 batteryNumber_update)

lemma chargerToWeak_numbered:
  assumes "allocationNumbered ranking numBats s"
  shows "allocationNumbered ranking numBats (chargerToWeak ranking numBats s)"
  using assms
  by (auto simp add: allocationNumbered_def chargerToWeak_def Let_def batteryNumber_0 batteryNumber_update
        upwards_set split: option.splits dest!: find_Some_set)

lemma chargerToLowestIsolatable_numbered:
  assumes "allocationNumbered ranking numBats s"
  shows "allocationNumbered ranking numBats (chargerToLowestIsolatable cfg ranking numBats longest s)"
  using assms
  by (auto simp add: allocationNumbered_def chargerToLowestIsolatable_def Let_def batteryNumber_0 batteryNumber_update
        upwards_set split: option.splits dest!: find_Some_set)

lemma chargerToLowest_numbered:
  assumes "allocationNumbered ranking numBats s"
  shows "allocationNumbered ranking numBats (chargerToLowest ranking numBats s)"
  using assms
  by (auto simp add: allocationNumbered_def chargerToLowest_def Let_def batteryNumber_0 batteryNumber_update
        upwards_set split: option.splits dest!: find_Some_set)

lemma chargerToLower_numbered:
  assumes "allocationNumbered ranking numBats s"
  shows "allocationNumbered ranking numBats (chargerToLower ranking numBats s)"
  using assms
  by (auto simp add: allocationNumbered_def chargerToLower_def Let_def batteryNumber_0 batteryNumber_update
        upwards_set split: option.splits dest!: find_Some_set)

lemma loadReleaseCharging_numbered:
  assumes "allocationNumbered ranking numBats s"
  shows "allocationNumbered ranking numBats (loadReleaseCharging cfg s)"
  using assms
  by (simp add: allocationNumbered_def loadReleaseCharging_def Let_def batteryNumber_0 batteryNumber_update)

lemma loadReleaseWeak_numbered:
  assumes "allocationNumbered ranking numBats s"
  shows "allocationNumbered ranking numBats (loadReleaseWeak s)"
  using assms
  by (simp add: allocationNumbered_def loadReleaseWeak_def Let_def batteryNumber_0 batteryNumber_update)

lemma loadReleaseLow_numbered:
  assumes "allocationNumbered ranking numBats s"
  shows "allocationNumbered ranking numBats (loadReleaseLow s)"
  using assms
  by (simp add: allocationNumbered_def loadReleaseLow_def Let_def batteryNumber_0 batteryNumber_update)

lemma loadToHighestIsolatable_numbered:
  assumes "allocationNumbered ranking numBats s"
  shows "allocationNumbered ranking numBats (loadToHighestIsolatable cfg ranking numBats longest s)"
  using assms
  by (auto simp add: allocationNumbered_def loadToHighestIsolatable_def Let_def batteryNumber_0 batteryNumber_update
        upwards_set split: option.splits dest!: find_Some_set)

lemma loadToHighest_numbered:
  assumes "allocationNumbered ranking numBats s"
  shows "allocationNumbered ranking numBats (loadToHighest cfg ranking numBats s)"
  using assms
  by (auto simp add: allocationNumbered_def loadToHighest_def Let_def batteryNumber_0 batteryNumber_update
        upwards_set split: option.splits dest!: find_Some_set)

lemma loadToNotWeak_numbered:
  assumes "allocationNumbered ranking numBats s"
  shows "allocationNumbered ranking numBats (loadToNotWeak ranking numBats s)"
  using assms
  by (auto simp add: allocationNumbered_def loadToNotWeak_def Let_def batteryNumber_0 batteryNumber_update
        upwards_set split: option.splits dest!: find_Some_set)

lemma reconsiderLoad_numbered:
  assumes "allocationNumbered ranking numBats s"
  shows "allocationNumbered ranking numBats (reconsiderLoad cfg ranking numBats s)"
  using assms
  by (auto simp add: allocationNumbered_def reconsiderLoad_def Let_def batteryNumber_0 batteryNumber_update
        upwards_set split: option.splits dest!: find_Some_set)

lemma loadToCharging_numbered:
  assumes "allocationNumbered ranking numBats s"
  shows "allocationNumbered ranking numBats (loadToCharging s)"
  using assms
  by (simp add: allocationNumbered_def loadToCharging_def Let_def batteryNumber_0 batteryNumber_update)

lemma allocateCharger_numbered:
  assumes "allocationNumbered ranking numBats s"
    and "1 \<le> numBats" and "numBats \<le> int (length ranking)"
  shows "allocationNumbered ranking numBats (allocateCharger cfg ranking numBats longest s)"
  unfolding allocateCharger_def Let_def
  by (intro chargerToLower_numbered chargerToLowest_numbered chargerToLowestIsolatable_numbered
        chargerToWeak_numbered chargerToCritical_numbered chargerReleaseLow_numbered assms)

lemma allocateLoad_numbered:
  assumes "allocationNumbered ranking numBats s"
  shows "allocationNumbered ranking numBats (allocateLoad cfg ranking numBats longest s)"
  unfolding allocateLoad_def Let_def
  by (intro loadToNotWeak_numbered loadToHighest_numbered loadToHighestIsolatable_numbered
        loadReleaseLow_numbered loadReleaseWeak_numbered loadReleaseCharging_numbered assms)

lemma severalBatteries_numbered:
  assumes "allocationNumbered ranking numBats s"
    and "1 \<le> numBats" and "numBats \<le> int (length ranking)"
  shows "allocationNumbered ranking numBats (severalBatteries cfg ranking numBats longest s)"
proof -
  let ?s0 = "s\<lparr>decisionStatus := decisionStatus s OR 0x2000\<rparr>"
  let ?s1 = "if \<not> chargerOff ?s0 then allocateCharger cfg ranking numBats longest ?s0 else ?s0"
  have "allocationNumbered ranking numBats ?s0"
    using assms(1) by (simp add: allocationNumbered_def batteryNumber_update)
  then have "allocationNumbered ranking numBats ?s1"
    using allocateCharger_numbered [OF _ assms(2,3)] by simp
  then have "allocationNumbered ranking numBats
               (loadToCharging (reconsiderLoad cfg ranking numBats
                  (allocateLoad cfg ranking numBats longest ?s1)))"
    by (intro loadToCharging_numbered reconsiderLoad_numbered allocateLoad_numbered)
  then show ?thesis
    by (simp add: severalBatteries_def Let_def)
qed

lemma oneBattery_numbered:
  assumes "allocationNumbered ranking 1 s" and "1 \<le> int (length ranking)"
  shows "allocationNumbered ranking 1 (oneBattery ranking s)"
  using assms lowest_ranked [of 1 ranking]
  by (simp add: allocationNumbered_def oneBattery_def Let_def batteryNumber_0 batteryNumber_update)

lemma preliminary_numbered:
  assumes "allocationNumbered ranking numBats s"
  shows "allocationNumbered ranking numBats (s\<lparr>decisionStatus := 0\<rparr>)"
    and "allocationNumbered ranking numBats (restartBulk cfg ranking' numBats' s)"
    and "allocationNumbered ranking numBats (releaseCharged s)"
    and "allocationNumbered ranking numBats (panelCheck m ranking' numBats' s)"
    and "allocationNumbered ranking numBats (floatCheck ranking' numBats' s)"
proof -
  show "allocationNumbered ranking numBats (s\<lparr>decisionStatus := 0\<rparr>)"
    using assms by (simp add: allocationNumbered_def batteryNumber_update)
  have "batteryNumber (restartBulk cfg ranking' numBats' s) = batteryNumber s"
    by (rule batteryNumber_cong) (simp_all add: restartBulk_frame)
  then show "allocationNumbered ranking numBats (restartBulk cfg ranking' numBats' s)"
    using assms by (simp add: allocationNumbered_def restartBulk_frame)
  show "allocationNumbered ranking numBats (releaseCharged s)"
    using assms
    by (simp add: allocationNumbered_def releaseCharged_def Let_def batteryNumber_0
          batteryNumber_update)
  show "allocationNumbered ranking numBats (panelCheck m ranking' numBats' s)"
    using assms
    by (simp add: allocationNumbered_def panelCheck_def Let_def batteryNumber_0 batteryNumber_update
          split: option.splits)
  show "allocationNumbered ranking numBats (floatCheck ranking' numBats' s)"
    using assms
    by (simp add: allocationNumbered_def floatCheck_def Let_def batteryNumber_0 batteryNumber_update
          split: option.splits)
qed

lemma decide_numbered:
  assumes "NUM_BATS s \<le> 255" and "numBats = countBats s"
    and "batteryNumber s (batteryUnderLoad s)" and "batteryNumber s (batteryUnderCharge s)"
  shows "allocationNumbered (batteryFillStateSort s) numBats (decide cfg m numBats s)"
proof -
  let ?r = "batteryFillStateSort s"
  let ?s3 = "floatCheck ?r numBats (panelCheck m ?r numBats
               (releaseCharged (restartBulk cfg ?r numBats (s\<lparr>decisionStatus := 0\<rparr>))))"
  have "batteryNumber s x" if "x \<in> set (ranked ?r numBats)" for x
  proof -
    from that have "x \<in> set ?r"
      using ranked_subset by blast
    then have "1 \<le> x \<and> x \<le> int (NUM_BATS s)"
      by (rule ranking_numbers)
    then show ?thesis
      by (simp add: batteryNumber_def)
  qed
  then have "\<forall>x\<in>set (ranked ?r numBats). batteryNumber s x"
    by blast
  with assms(3,4) have "allocationNumbered ?r numBats s"
    by (simp add: allocationNumbered_def)
  then have p: "allocationNumbered ?r numBats ?s3"
    by (intro preliminary_numbered)
  have len: "numBats \<le> int (length ?r)"
    using countBats_le [OF assms(1)] assms(2) ranking_mset [of s] by simp
  have d1: "numBats = 1 \<Longrightarrow> decide cfg m numBats s = oneBattery ?r ?s3"
    by (simp add: decide_def Let_def)
  have d2: "numBats > 1 \<Longrightarrow> decide cfg m numBats s
              = severalBatteries cfg ?r numBats (longestBattery s numBats) ?s3"
    by (simp add: decide_def Let_def)
  have d3: "numBats < 1 \<Longrightarrow> decide cfg m numBats s = ?s3"
    by (simp add: decide_def Let_def)
  consider "numBats = 1" | "numBats > 1" | "numBats < 1"
    by linarith
  then show ?thesis
  proof cases
    case 1
    with p len have "allocationNumbered ?r 1 (oneBattery ?r ?s3)"
      by (intro oneBattery_numbered) simp_all
    with 1 show ?thesis
      unfolding d1 [OF 1] by simp
  next
    case 2
    with p len show ?thesis
      unfolding d2 [OF 2] by (intro severalBatteries_numbered) simp_all
  next
    case 3
    with p show ?thesis
      unfolding d3 [OF 3] by simp
  qed
qed

lemma monitorTick_NUM_BATS: "NUM_BATS (monitorTick cfg m s) = NUM_BATS s"
proof -
  let ?s1 = "removeMissing cfg s"
  let ?s2 = "trackBatteries cfg m ?s1"
  let ?d = "decide cfg m (countBats ?s1) ?s2"
  have "monitorTick cfg m s = idleResets cfg m (setSwitches cfg m (updateOpStates cfg m ?d))"
    by (simp add: monitorTick_def Let_def)
  then have "NUM_BATS (monitorTick cfg m s) = NUM_BATS ?d"
    by (simp add: NUM_BATS_def idleResets_def setSwitches_frame updateOpStates_def)
  also have "\<dots> = NUM_BATS ?s2"
    by (simp add: NUM_BATS_def decide_frame)
  also have "\<dots> = NUM_BATS s"
    using removeMissing_fold [of cfg s "[0..<NUM_BATS s]"]
    by (simp add: trackBatteries_def removeMissing_def NUM_BATS_def)
  finally show ?thesis .
qed

text \<open>A pass keeps the battery under load and the battery under charge 0 or battery numbers.\<close>

lemma monitorTick_numbered:
  assumes "NUM_BATS s \<le> 255"
    and "batteryNumber s (batteryUnderLoad s)" and "batteryNumber s (batteryUnderCharge s)"
  shows "batteryNumber (monitorTick cfg m s) (batteryUnderLoad (monitorTick cfg m s))
         \<and> batteryNumber (monitorTick cfg m s) (batteryUnderCharge (monitorTick cfg m s))"
proof -
  let ?s1 = "removeMissing cfg s"
  let ?s2 = "trackBatteries cfg m ?s1"
  let ?d = "decide cfg m (countBats ?s1) ?s2"
  have n2: "NUM_BATS ?s2 = NUM_BATS s"
    using removeMissing_fold [of cfg s "[0..<NUM_BATS s]"]
    by (simp add: trackBatteries_def removeMissing_def NUM_BATS_def)
  have c: "countBats ?s1 = countBats ?s2"
    by (simp add: trackBatteries_countBats)
  have u: "batteryUnderLoad ?s2 = batteryUnderLoad ?s1"
    "batteryUnderCharge ?s2 = batteryUnderCharge ?s1"
    by (simp_all add: trackBatteries_def)
  have "(batteryUnderLoad ?s1 = batteryUnderLoad s \<or> batteryUnderLoad ?s1 = 0)
        \<and> (batteryUnderCharge ?s1 = batteryUnderCharge s \<or> batteryUnderCharge ?s1 = 0)"
    using removeMissing_fold_alloc [of cfg s "[0..<NUM_BATS s]"]
    by (simp add: removeMissing_def)
  with assms(2,3) have "batteryNumber ?s2 (batteryUnderLoad ?s2)
                        \<and> batteryNumber ?s2 (batteryUnderCharge ?s2)"
    unfolding u batteryNumber_def n2 by auto
  then have "allocationNumbered (batteryFillStateSort ?s2) (countBats ?s1) ?d"
    using assms(1) n2 c by (intro decide_numbered) simp_all
  then have "batteryNumber ?d (batteryUnderLoad ?d) \<and> batteryNumber ?d (batteryUnderCharge ?d)"
    by (simp add: allocationNumbered_def)
  moreover have "NUM_BATS ?d = NUM_BATS ?s2"
    by (simp add: NUM_BATS_def decide_frame)
  then have "NUM_BATS ?d = NUM_BATS (monitorTick cfg m s)"
    by (simp only: monitorTick_NUM_BATS n2)
  ultimately show ?thesis
    by (simp add: batteryNumber_def monitorTick_decide)
qed

section \<open>The operational state of the battery under load\<close>

lemma monitorTick_op_state:
  assumes "i < NUM_BATS (monitorTick cfg m s)"
    and "healthState (battery (monitorTick cfg m s) ! i) \<noteq> missingH"
  shows "opState (battery (monitorTick cfg m s) ! i)
           = (if batteryUnderCharge (monitorTick cfg m s) = int i + 1 then chargingO
              else if batteryUnderLoad (monitorTick cfg m s) = int i + 1 then loadedO
              else isolatedO)"
proof -
  let ?d = "decide cfg m (countBats (removeMissing cfg s))
              (trackBatteries cfg m (removeMissing cfg s))"
  let ?b = "battery ?d ! i"
  have b: "battery (monitorTick cfg m s) ! i
             = idleReset cfg m (int i)
                 (updateOpState cfg m (batteryUnderLoad ?d) (batteryUnderCharge ?d) (int i) ?b)"
    using assms(1) by (rule monitorTick_battery(2))
  from assms(2) have h: "healthState ?b \<noteq> missingH"
    by (simp add: b idleReset_frame updateOpState_health)
  have "opState (battery (monitorTick cfg m s) ! i)
          = (if batteryUnderCharge ?d > 0 \<and> int i = batteryUnderCharge ?d - 1 then chargingO
             else if batteryUnderLoad ?d > 0 \<and> batteryUnderLoad ?d = int i + 1 then loadedO
             else isolatedO)"
    by (simp only: b idleReset_frame updateOpState_op [OF h])
  then show ?thesis
    by (auto simp add: monitorTick_decide)
qed

lemma filter_number:
  "filter (\<lambda>j. a = int j + 1) [0..<n] = (if 1 \<le> a \<and> a \<le> int n then [nat (a - 1)] else [])"
proof (induction n)
  case 0
  then show ?case by simp
next
  case (Suc n)
  show ?case
  proof (cases "a = int n + 1")
    case True
    with Suc show ?thesis by simp
  next
    case False
    with Suc show ?thesis by auto
  qed
qed

text \<open>The batteries in state loaded that are not missing, from the allocation.\<close>

lemma loadedBatteries_allocation:
  assumes "NUM_BATS s \<le> 255"
  shows "loadedBatteries (monitorTick cfg m s)
           = (if batteryUnderLoad (monitorTick cfg m s) \<noteq> batteryUnderCharge (monitorTick cfg m s)
                 \<and> 1 \<le> batteryUnderLoad (monitorTick cfg m s)
                 \<and> batteryUnderLoad (monitorTick cfg m s) \<le> int (NUM_BATS (monitorTick cfg m s))
              then [nat (batteryUnderLoad (monitorTick cfg m s) - 1)] else [])"
proof -
  let ?t = "monitorTick cfg m s"
  have "(healthState (battery ?t ! j) \<noteq> missingH \<and> opState (battery ?t ! j) = loadedO)
          = (batteryUnderLoad ?t = int j + 1 \<and> batteryUnderLoad ?t \<noteq> batteryUnderCharge ?t)"
    if "j \<in> set [0..<NUM_BATS ?t]" for j
  proof -
    from that have j: "j < NUM_BATS ?t" by simp
    show ?thesis
    proof (cases "healthState (battery ?t ! j) = missingH")
      case True
      with monitorTick_present [OF assms j] show ?thesis by blast
    next
      case False
      with monitorTick_op_state [OF j False] show ?thesis by auto
    qed
  qed
  then have "loadedBatteries ?t
               = filter (\<lambda>j. batteryUnderLoad ?t = int j + 1
                              \<and> batteryUnderLoad ?t \<noteq> batteryUnderCharge ?t) [0..<NUM_BATS ?t]"
    unfolding loadedBatteries_def by (rule filter_cong [OF refl])
  also have "\<dots> = (if batteryUnderLoad ?t \<noteq> batteryUnderCharge ?t
                     then filter (\<lambda>j. batteryUnderLoad ?t = int j + 1) [0..<NUM_BATS ?t]
                     else [])"
    by simp
  finally show ?thesis
    by (simp add: filter_number)
qed

text \<open>
  The calibration and \<^verbatim>\<open>setBatteryMissing\<close> mark a battery missing without a change to
  its operational state, and the pass leaves the record of a missing battery as it is.
  Battery 3, under load when it is reported missing, is still in state loaded after the
  next pass, which has moved the loads to battery 1.
\<close>

lemma missing_battery_keeps_op_state:
  "opState (battery (setBatteryMissing 2 True loadedThird) ! 2) = loadedO
   \<and> healthState (battery (setBatteryMissing 2 True loadedThird) ! 2) = missingH
   \<and> opState (battery (monitorTick exampleConfig nightMeasurements
                         (setBatteryMissing 2 True loadedThird)) ! 2) = loadedO"
  by code_simp

text \<open>
  Claim C3, as amended. At the end of a pass over at most 255 batteries: the battery under
  load is not missing and is in state loaded, unless it is also the battery under charge,
  and then it is in state charging; a battery that is not missing and is in state loaded is
  the battery under load and not the battery under charge; and when the battery under load
  and the battery under charge were 0 or battery numbers before the pass, they are so after
  it, and among the batteries that are not missing exactly the battery under load is in
  state loaded if there is one and it is not the battery under charge, and none is
  otherwise.
\<close>

theorem load_op_state:
  assumes "NUM_BATS s \<le> 255" and "i < NUM_BATS (monitorTick cfg m s)"
  shows "(batteryUnderLoad (monitorTick cfg m s) = int i + 1
            \<longrightarrow> healthState (battery (monitorTick cfg m s) ! i) \<noteq> missingH
                \<and> opState (battery (monitorTick cfg m s) ! i)
                    = (if batteryUnderCharge (monitorTick cfg m s) = int i + 1 then chargingO
                       else loadedO))
         \<and> (healthState (battery (monitorTick cfg m s) ! i) \<noteq> missingH
              \<and> opState (battery (monitorTick cfg m s) ! i) = loadedO
            \<longrightarrow> batteryUnderLoad (monitorTick cfg m s) = int i + 1
                \<and> batteryUnderCharge (monitorTick cfg m s) \<noteq> int i + 1)
         \<and> (batteryNumber s (batteryUnderLoad s) \<and> batteryNumber s (batteryUnderCharge s)
            \<longrightarrow> batteryNumber (monitorTick cfg m s) (batteryUnderLoad (monitorTick cfg m s))
                \<and> batteryNumber (monitorTick cfg m s) (batteryUnderCharge (monitorTick cfg m s))
                \<and> loadedBatteries (monitorTick cfg m s)
                    = (if batteryUnderLoad (monitorTick cfg m s) \<noteq> 0
                          \<and> batteryUnderLoad (monitorTick cfg m s)
                              \<noteq> batteryUnderCharge (monitorTick cfg m s)
                       then [nat (batteryUnderLoad (monitorTick cfg m s) - 1)] else []))"
proof -
  let ?t = "monitorTick cfg m s"
  have 1: "healthState (battery ?t ! i) \<noteq> missingH
           \<and> opState (battery ?t ! i)
               = (if batteryUnderCharge ?t = int i + 1 then chargingO else loadedO)"
    if l: "batteryUnderLoad ?t = int i + 1"
  proof -
    have p: "healthState (battery ?t ! i) \<noteq> missingH"
      using assms l by (intro monitorTick_present) simp_all
    with monitorTick_op_state [OF assms(2) p] l show ?thesis
      by simp
  qed
  have 2: "batteryUnderLoad ?t = int i + 1 \<and> batteryUnderCharge ?t \<noteq> int i + 1"
    if "healthState (battery ?t ! i) \<noteq> missingH \<and> opState (battery ?t ! i) = loadedO"
  proof -
    from that monitorTick_op_state [OF assms(2), of ] show ?thesis
      by (auto split: if_splits)
  qed
  have 3: "batteryNumber ?t (batteryUnderLoad ?t) \<and> batteryNumber ?t (batteryUnderCharge ?t)
           \<and> loadedBatteries ?t
               = (if batteryUnderLoad ?t \<noteq> 0 \<and> batteryUnderLoad ?t \<noteq> batteryUnderCharge ?t
                  then [nat (batteryUnderLoad ?t - 1)] else [])"
    if "batteryNumber s (batteryUnderLoad s) \<and> batteryNumber s (batteryUnderCharge s)"
  proof -
    from that have n: "batteryNumber ?t (batteryUnderLoad ?t)
                       \<and> batteryNumber ?t (batteryUnderCharge ?t)"
      using assms(1) by (intro monitorTick_numbered) simp_all
    then have "(1 \<le> batteryUnderLoad ?t \<and> batteryUnderLoad ?t \<le> int (NUM_BATS ?t))
                 = (batteryUnderLoad ?t \<noteq> 0)"
      by (auto simp add: batteryNumber_def)
    with n loadedBatteries_allocation [OF assms(1), of cfg m] show ?thesis
      by auto
  qed
  from 1 2 3 show ?thesis
    by blast
qed

theorem load_op_state_witness:
  "NUM_BATS twoBatteryBank \<le> 255
   \<and> (0::nat) < NUM_BATS (monitorTick exampleConfig nightMeasurements twoBatteryBank)
   \<and> batteryUnderLoad (monitorTick exampleConfig nightMeasurements twoBatteryBank) = int 0 + 1
   \<and> batteryUnderCharge (monitorTick exampleConfig nightMeasurements twoBatteryBank) = 0
   \<and> batteryNumber twoBatteryBank (batteryUnderLoad twoBatteryBank)
   \<and> batteryNumber twoBatteryBank (batteryUnderCharge twoBatteryBank)
   \<and> healthState (battery (monitorTick exampleConfig nightMeasurements twoBatteryBank) ! 0)
       \<noteq> missingH
   \<and> opState (battery (monitorTick exampleConfig nightMeasurements twoBatteryBank) ! 0)
       = loadedO
   \<and> loadedBatteries (monitorTick exampleConfig nightMeasurements twoBatteryBank) = [0]"
proof -
  have 1: "NUM_BATS twoBatteryBank \<le> 255"
    by code_simp
  have 2: "(0::nat) < NUM_BATS (monitorTick exampleConfig nightMeasurements twoBatteryBank)"
    by code_simp
  have 3: "batteryUnderLoad (monitorTick exampleConfig nightMeasurements twoBatteryBank)
             = int 0 + 1"
    by code_simp
  have 4: "batteryUnderCharge (monitorTick exampleConfig nightMeasurements twoBatteryBank) = 0"
    by code_simp
  have 5: "batteryNumber twoBatteryBank (batteryUnderLoad twoBatteryBank)
           \<and> batteryNumber twoBatteryBank (batteryUnderCharge twoBatteryBank)"
    by code_simp
  note t = load_op_state [OF 1 2]
  from t 3 have a: "healthState (battery (monitorTick exampleConfig nightMeasurements
                                     twoBatteryBank) ! 0) \<noteq> missingH
      \<and> opState (battery (monitorTick exampleConfig nightMeasurements twoBatteryBank) ! 0)
          = (if batteryUnderCharge (monitorTick exampleConfig nightMeasurements twoBatteryBank)
                = int 0 + 1
             then chargingO else loadedO)"
    by blast
  have b: "opState (battery (monitorTick exampleConfig nightMeasurements twoBatteryBank) ! 0)
             = loadedO"
    using a unfolding 4 by simp
  from t 5 have "loadedBatteries (monitorTick exampleConfig nightMeasurements twoBatteryBank)
      = (if batteryUnderLoad (monitorTick exampleConfig nightMeasurements twoBatteryBank) \<noteq> 0
            \<and> batteryUnderLoad (monitorTick exampleConfig nightMeasurements twoBatteryBank)
                \<noteq> batteryUnderCharge (monitorTick exampleConfig nightMeasurements
                                         twoBatteryBank)
         then [nat (batteryUnderLoad (monitorTick exampleConfig nightMeasurements
                                        twoBatteryBank) - 1)]
         else [])"
    by blast
  then have c: "loadedBatteries (monitorTick exampleConfig nightMeasurements twoBatteryBank)
                  = [0]"
    unfolding 3 4 by simp
  from 1 2 3 4 5 a b c show ?thesis
    by blast
qed

text \<open>
  Claim C3 as stated fails in two ways. With battery 1 alone the loads and the charger are
  on battery 1, which is in state charging: no battery is in state loaded although one is
  under load. With battery 3 reported missing while under load, the pass moves the loads to
  battery 1 and batteries 1 and 3 are both in state loaded.
\<close>

theorem loaded_state_not_as_allocated:
  "batteryUnderLoad (monitorTick exampleConfig nightMeasurements oneBatteryBank) = 0 + 1
   \<and> batteryUnderCharge (monitorTick exampleConfig nightMeasurements oneBatteryBank) = 0 + 1
   \<and> map opState (battery (monitorTick exampleConfig nightMeasurements oneBatteryBank))
       = [chargingO, isolatedO, isolatedO]
   \<and> batteryUnderLoad (monitorTick exampleConfig nightMeasurements
                         (setBatteryMissing 2 True loadedThird)) = 1
   \<and> map opState (battery (monitorTick exampleConfig nightMeasurements
                             (setBatteryMissing 2 True loadedThird)))
       = [loadedO, isolatedO, loadedO]
   \<and> map healthState (battery (monitorTick exampleConfig nightMeasurements
                                 (setBatteryMissing 2 True loadedThird)))
       = [goodH, goodH, missingH]"
  by code_simp

section \<open>The review of a load on a low battery\<close>

text \<open>
  Claim C8. At night, with batteries 1 and 2 low and no battery under charge, the review
  of the load is not skipped: its outcome follows the SoC of the record in front of the
  battery array, which is 0 in the first bank and 65535 in the second.
\<close>

theorem load_review_reads_before_array:
  "batteryUnderCharge (monitorTick exampleConfig nightMeasurements (lowBank 0)) = 0
   \<and> decisionStatus (monitorTick exampleConfig nightMeasurements (lowBank 0)) = 0x2020
   \<and> batteryUnderCharge (monitorTick exampleConfig nightMeasurements (lowBank 65535)) = 0
   \<and> decisionStatus (monitorTick exampleConfig nightMeasurements (lowBank 65535)) = 0x2030"
  by code_simp

section \<open>The calibration run\<close>

lemma markMissingStep_calls: "calls (markMissingStep cfg cal test s i) = calls s"
  by (simp add: markMissingStep_def setBatterySoC_frame)

lemma markMissing_fold: "calls (foldl (markMissingStep cfg cal test) s is) = calls s"
  by (induction "is" arbitrary: s) (simp_all add: markMissingStep_calls)

lemma markMissing_calls: "calls (markMissing cfg cal test s) = calls s"
  by (simp add: markMissing_def markMissing_fold)

lemma testSwitches_no_delay: "filter (\<lambda>c. c = TaskDelay) (testSwitches s test) = []"
  by (simp add: testSwitches_def filter_empty_conv)

lemma calibrationTest_testsRun:
  "testsRun (fst (calibrationTest cfg cal sr test)) = testsRun (fst sr) + 1"
  by (simp add: calibrationTest_def Let_def testsRun_def markMissing_calls
        testSwitches_no_delay)

lemma calibrationTests_testsRun:
  "testsRun (fst (foldl (calibrationTest cfg cal) sr tests)) = testsRun (fst sr) + length tests"
  by (induction tests arbitrary: sr) (simp_all add: calibrationTest_testsRun)

lemma reseed_state:
  "healthState (reseed cfg m i b) = healthState b"
  "healthState b \<noteq> missingH \<Longrightarrow>
     opState (reseed cfg m i b) = isolatedO \<and> isolationTime (reseed cfg m i b) = 0
     \<and> currentSteady (reseed cfg m i b) = 0"
  by (simp_all add: reseed_def setSoC_frame)

text \<open>
  Claim C6, as amended. A calibration run goes through one test per interface and one
  more, which is 7 for three batteries, two loads and one panel. At its end no battery is
  under load or under charge, the request is cleared, and every battery that is not
  missing is isolated with isolation time and steady current count 0.
\<close>

theorem calibration_run:
  "testsRun (calibration cfg cal m s) = testsRun s + (NUM_BATS s + NUM_LOADS + NUM_PANELS) + 1
   \<and> batteryUnderLoad (calibration cfg cal m s) = 0
   \<and> batteryUnderCharge (calibration cfg cal m s) = 0
   \<and> \<not> calibrate (calibration cfg cal m s)
   \<and> (\<forall>i < NUM_BATS (calibration cfg cal m s).
         healthState (battery (calibration cfg cal m s) ! i) \<noteq> missingH
         \<longrightarrow> opState (battery (calibration cfg cal m s) ! i) = isolatedO
             \<and> isolationTime (battery (calibration cfg cal m s) ! i) = 0
             \<and> currentSteady (battery (calibration cfg cal m s) ! i) = 0)"
proof -
  let ?s0 = "s\<lparr>currentOffsets := replicate (NUM_IFS s) 0\<rparr>"
  let ?sr = "foldl (calibrationTest cfg cal) (?s0, []) [0..<NUM_TESTS ?s0]"
  have n: "NUM_TESTS ?s0 = NUM_BATS s + NUM_LOADS + NUM_PANELS + 1"
    by (simp add: NUM_TESTS_def NUM_IFS_def NUM_BATS_def)
  have r: "testsRun (fst ?sr) = testsRun s + (NUM_BATS s + NUM_LOADS + NUM_PANELS) + 1"
    using calibrationTests_testsRun [of cfg cal "(?s0, [])" "[0..<NUM_TESTS ?s0]"]
    by (simp add: n testsRun_def)
  have b: "battery (calibration cfg cal m s)
             = map (\<lambda>i. reseed cfg m (int i) (battery (fst ?sr) ! i)) [0..<NUM_BATS (fst ?sr)]"
    by (simp add: calibration_def Let_def NUM_BATS_def)
  have t: "testsRun (calibration cfg cal m s) = testsRun (fst ?sr)"
    by (simp add: calibration_def Let_def testsRun_def)
  have a: "batteryUnderLoad (calibration cfg cal m s) = 0
           \<and> batteryUnderCharge (calibration cfg cal m s) = 0
           \<and> \<not> calibrate (calibration cfg cal m s)"
    by (simp add: calibration_def Let_def)
  have "NUM_BATS (calibration cfg cal m s) = NUM_BATS (fst ?sr)"
    by (simp add: b NUM_BATS_def)
  then have "\<forall>i < NUM_BATS (calibration cfg cal m s).
         healthState (battery (calibration cfg cal m s) ! i) \<noteq> missingH
         \<longrightarrow> opState (battery (calibration cfg cal m s) ! i) = isolatedO
             \<and> isolationTime (battery (calibration cfg cal m s) ! i) = 0
             \<and> currentSteady (battery (calibration cfg cal m s) ! i) = 0"
    by (simp add: b reseed_state)
  with r t a show ?thesis
    by simp
qed

theorem calibration_run_witness:
  "testsRun (calibration exampleConfig quietReadings nightMeasurements threeBatteryBank)
     = testsRun threeBatteryBank + (NUM_BATS threeBatteryBank + NUM_LOADS + NUM_PANELS) + 1
   \<and> batteryUnderLoad (calibration exampleConfig quietReadings nightMeasurements
         threeBatteryBank) = 0
   \<and> batteryUnderCharge (calibration exampleConfig quietReadings nightMeasurements
         threeBatteryBank) = 0
   \<and> \<not> calibrate (calibration exampleConfig quietReadings nightMeasurements threeBatteryBank)
   \<and> 0 < NUM_BATS (calibration exampleConfig quietReadings nightMeasurements threeBatteryBank)
   \<and> healthState (battery (calibration exampleConfig quietReadings nightMeasurements
                        threeBatteryBank) ! 0) \<noteq> missingH
   \<and> opState (battery (calibration exampleConfig quietReadings nightMeasurements
                        threeBatteryBank) ! 0) = isolatedO
   \<and> isolationTime (battery (calibration exampleConfig quietReadings nightMeasurements
                        threeBatteryBank) ! 0) = 0
   \<and> currentSteady (battery (calibration exampleConfig quietReadings nightMeasurements
                        threeBatteryBank) ! 0) = 0"
proof -
  have "0 < NUM_BATS (calibration exampleConfig quietReadings nightMeasurements threeBatteryBank)
   \<and> healthState (battery (calibration exampleConfig quietReadings nightMeasurements
                        threeBatteryBank) ! 0) \<noteq> missingH"
    by code_simp
  then show ?thesis
    using calibration_run [of exampleConfig quietReadings nightMeasurements threeBatteryBank]
    by simp
qed

text \<open>
  Claim C6 as stated fails on the count for three batteries, two loads and one panel: the
  run goes through 7 configurations, not 5.
\<close>

theorem calibration_runs_seven_tests:
  "NUM_BATS threeBatteryBank = 3 \<and> NUM_LOADS = 2 \<and> NUM_PANELS = 1
   \<and> testsRun threeBatteryBank = 0
   \<and> testsRun (calibration exampleConfig quietReadings nightMeasurements threeBatteryBank) = 7
   \<and> testsRun (calibration exampleConfig quietReadings nightMeasurements threeBatteryBank) \<noteq> 5"
  by code_simp

end
